theory Spec2Isabelle
  imports Complex_Main "HOL-Library.Log_Nat"
begin

section \<open>JavaScript numbers and parsing\<close>

text \<open>
  A JavaScript number is an IEEE double: a real, or one of the three special values. The
  operations \<open>js_mul\<close>, \<open>js_add\<close> and \<open>js_sub\<close> below give the exact result on finite
  operands, and \<open>double\<close> rounds a result to a double. The trade handlers round every
  result of their arithmetic, as the code does. The conversion of the confidence of a
  prediction takes the exact product: its rounding is not modelled. Negative zero is
  identified with zero.
\<close>

datatype number = Finite real | PosInf | NegInf | NaN

text \<open>Rounding to the nearest integer, a tie going to the even one.\<close>

definition round_half_even :: "real \<Rightarrow> int" where
  "round_half_even y =
     (let f = \<lfloor>y\<rfloor>
      in if y - of_int f < 1 / 2 \<or> (y - of_int f = 1 / 2 \<and> even f) then f else f + 1)"

text \<open>
  Rounding to \<open>p\<close> significant bits, with no spacing below \<open>2 ^ - e\<close>: the magnitude is
  counted in units of \<open>2 ^ - e\<close>, the bits it has beyond \<open>p\<close> are the exponent \<open>s\<close> of the
  spacing at that magnitude, and the multiple of the spacing is rounded, ties to even.
\<close>

definition round_to :: "nat \<Rightarrow> nat \<Rightarrow> real \<Rightarrow> real" where
  "round_to p e x =
     (let N = \<bar>x\<bar> * 2 ^ e;
          s = floorlog 2 (nat \<lfloor>N\<rfloor>) - p
      in sgn x * (of_int (round_half_even (N / 2 ^ s)) * 2 ^ s / 2 ^ e))"

text \<open>
  A double has 53 significant bits and its smallest spacing is \<open>2 ^ - 1074\<close>. A result
  that rounds to \<open>2 ^ 1024\<close> or beyond is an infinity.
\<close>

definition nearest :: "real \<Rightarrow> real" where
  "nearest x = round_to 53 1074 x"

definition round_double :: "real \<Rightarrow> number" where
  "round_double x =
     (let r = nearest x
      in if 2 ^ 1024 \<le> r then PosInf else if r \<le> - (2 ^ 1024) then NegInf else Finite r)"

fun double :: "number \<Rightarrow> number" where
  "double (Finite x) = round_double x"
| "double PosInf = PosInf"
| "double NegInf = NegInf"
| "double NaN = NaN"

text \<open>
  The quantities of the ledger are doubles of an integer value, here of type \<open>int\<close>; an
  integer is rounded like any number. A quantity of \<open>2 ^ 1024\<close> or more, an infinity in
  the code, is outside this model.
\<close>

definition round_int :: "int \<Rightarrow> int" where
  "round_int n = \<lfloor>nearest (of_int n)\<rfloor>"

text \<open>
  The exact operations: the product, the sum and the difference of two numbers before any
  rounding, with the rules of IEEE arithmetic for NaN and the infinities.
\<close>

definition inf_times :: "bool \<Rightarrow> real \<Rightarrow> number" where
  "inf_times pos a = (if a = 0 then NaN else if (0 < a) = pos then PosInf else NegInf)"

fun js_mul :: "number \<Rightarrow> number \<Rightarrow> number" where
  "js_mul NaN _ = NaN"
| "js_mul _ NaN = NaN"
| "js_mul (Finite a) (Finite b) = Finite (a * b)"
| "js_mul (Finite a) PosInf = inf_times True a"
| "js_mul (Finite a) NegInf = inf_times False a"
| "js_mul PosInf (Finite b) = inf_times True b"
| "js_mul NegInf (Finite b) = inf_times False b"
| "js_mul PosInf PosInf = PosInf"
| "js_mul NegInf NegInf = PosInf"
| "js_mul PosInf NegInf = NegInf"
| "js_mul NegInf PosInf = NegInf"

fun js_neg :: "number \<Rightarrow> number" where
  "js_neg (Finite a) = Finite (- a)"
| "js_neg PosInf = NegInf"
| "js_neg NegInf = PosInf"
| "js_neg NaN = NaN"

fun js_add :: "number \<Rightarrow> number \<Rightarrow> number" where
  "js_add NaN _ = NaN"
| "js_add _ NaN = NaN"
| "js_add (Finite a) (Finite b) = Finite (a + b)"
| "js_add PosInf NegInf = NaN"
| "js_add NegInf PosInf = NaN"
| "js_add PosInf _ = PosInf"
| "js_add NegInf _ = NegInf"
| "js_add (Finite a) PosInf = PosInf"
| "js_add (Finite a) NegInf = NegInf"

definition js_sub :: "number \<Rightarrow> number \<Rightarrow> number" where
  "js_sub a b = js_add a (js_neg b)"

text \<open>The comparison \<open>a < b\<close>; any comparison with NaN is false.\<close>

fun js_lt :: "number \<Rightarrow> number \<Rightarrow> bool" where
  "js_lt NaN _ = False"
| "js_lt _ NaN = False"
| "js_lt (Finite a) (Finite b) = (a < b)"
| "js_lt _ NegInf = False"
| "js_lt PosInf _ = False"
| "js_lt NegInf _ = True"
| "js_lt (Finite a) PosInf = True"

definition js_gt :: "number \<Rightarrow> number \<Rightarrow> bool" where
  "js_gt a b = js_lt b a"

text \<open>
  \<open>parseInt(s, 10)\<close>: leading white space is skipped, one sign is read, then the longest
  run of decimal digits, whose value is rounded to a double; no digit gives NaN, here
  \<open>None\<close>. A character is one of the 256 of Latin-1, of which the tabulators, the line
  ends, the space and the no-break space are white space.
\<close>

definition isWhiteSpace :: "char \<Rightarrow> bool" where
  "isWhiteSpace c = (of_char c \<in> {9, 10, 11, 12, 13, 32, 160 :: nat})"

definition isDigit :: "char \<Rightarrow> bool" where
  "isDigit c = (48 \<le> (of_char c :: nat) \<and> (of_char c :: nat) \<le> 57)"

definition digitValue :: "char \<Rightarrow> int" where
  "digitValue c = int (of_char c) - 48"

definition parseInt :: "string \<Rightarrow> int option" where
  "parseInt s =
     (let t = dropWhile isWhiteSpace s;
          neg = (t \<noteq> [] \<and> hd t = CHR ''-'');
          u = (if t \<noteq> [] \<and> (hd t = CHR ''-'' \<or> hd t = CHR ''+'') then tl t else t);
          ds = takeWhile isDigit u
      in if ds = [] then None
         else Some (round_int ((if neg then - 1 else 1) * foldl (\<lambda>a c. 10 * a + digitValue c) 0 ds)))"

text \<open>
  \<open>window.prompt\<close> returns null when cancelled, else the text typed; \<open>!qtyStr\<close> is true
  of null and of the empty string.
\<close>

definition prompt_text :: "string option \<Rightarrow> string option" where
  "prompt_text qtyStr = (case qtyStr of None \<Rightarrow> None | Some s \<Rightarrow> if s = [] then None else Some s)"

section \<open>The ledger data and its persistence\<close>

datatype side = BUY | SELL

record holding =
  h_ticker :: string
  h_quantity :: int

text \<open>
  A stored transaction has passed through \<open>JSON.stringify\<close>, which writes \<open>null\<close> for
  NaN and the infinities: the price of a record is a number or \<open>null\<close> (\<open>None\<close>).
\<close>

record transaction =
  tx_ticker :: string
  tx_type :: side
  tx_quantity :: int
  tx_price :: "number option"
  tx_timestamp :: string

definition JSON_number :: "number \<Rightarrow> number option" where
  "JSON_number n = (case n of Finite r \<Rightarrow> Some (Finite r) | _ \<Rightarrow> None)"

definition JSON_roundtrip_tx :: "transaction \<Rightarrow> transaction" where
  "JSON_roundtrip_tx tx = tx\<lparr>tx_price := Option.bind (tx_price tx) JSON_number\<rparr>"

text \<open>
  The text under a key of \<open>localStorage\<close> is classified by what the parser applied to it
  makes of it: the empty string, text the parser rejects, or text that parses to a value
  of the expected type. \<open>getItem\<close> gives \<open>None\<close> (null) for a key that is not there.
  Text that is valid JSON of another shape is outside this model.
\<close>

datatype 'a stored = Empty_text | Malformed | Text 'a

record localStorage =
  ls_balance :: "number stored option"
  ls_portfolio :: "holding list stored option"
  ls_transactions :: "transaction list stored option"

datatype exn = SyntaxError | TypeError

text \<open>\<open>localStorage.getItem(k) || d\<close>: null and the empty string are falsy.\<close>

fun or_default :: "'a stored option \<Rightarrow> 'a \<Rightarrow> 'a stored" where
  "or_default None d = Text d"
| "or_default (Some Empty_text) d = Text d"
| "or_default (Some t) d = t"

fun parseFloat :: "number stored \<Rightarrow> number" where
  "parseFloat (Text n) = n"
| "parseFloat _ = NaN"

fun JSON_parse :: "'a stored \<Rightarrow> exn + 'a" where
  "JSON_parse (Text v) = Inr v"
| "JSON_parse _ = Inl SyntaxError"

text \<open>\<open>Array.prototype.findIndex\<close>, with \<open>None\<close> for the result -1.\<close>

fun findIndex :: "('a \<Rightarrow> bool) \<Rightarrow> 'a list \<Rightarrow> nat option" where
  "findIndex P [] = None"
| "findIndex P (x # xs) = (if P x then Some 0 else map_option Suc (findIndex P xs))"

text \<open>
  \<open>p[idx].quantity -= quantity; if (p[idx].quantity === 0) p.splice(idx, 1)\<close> and
  \<open>p[idx].quantity += quantity\<close>. Both are only reached with an index that
  \<open>findIndex\<close> returned, which is in range. The difference and the sum are doubles.
\<close>

definition sell_at :: "nat \<Rightarrow> int \<Rightarrow> holding list \<Rightarrow> holding list" where
  "sell_at idx quantity p =
     (let item = (p ! idx)\<lparr>h_quantity := round_int (h_quantity (p ! idx) - quantity)\<rparr>
      in if h_quantity item = 0 then take idx p @ drop (Suc idx) p else p[idx := item])"

definition buy_at :: "nat \<Rightarrow> int \<Rightarrow> holding list \<Rightarrow> holding list" where
  "buy_at idx quantity p =
     p[idx := (p ! idx)\<lparr>h_quantity := round_int (h_quantity (p ! idx) + quantity)\<rparr>]"

text \<open>The quantity the handlers call \<open>currentQty\<close>: that of the first entry of the ticker, else 0.\<close>

definition held_quantity :: "holding list \<Rightarrow> string \<Rightarrow> int" where
  "held_quantity p t =
     (case findIndex (\<lambda>item. h_ticker item = t) p of None \<Rightarrow> 0 | Some i \<Rightarrow> h_quantity (p ! i))"

text \<open>What the user is shown: each constructor is one \<open>alert\<close> of the handlers.\<close>

datatype alert =
    Invalid_quantity
  | No_price_info
  | Cannot_sell_more_than_you_own int
  | Insufficient_balance number number
  | Order_placed side int string
  | Failed_to_save_transaction

section \<open>The trade handler of the prediction widget\<close>

record StockPrediction =
  ticker :: string
  current_price :: number
  prediction_dates :: "string list"
  prediction_prices :: "number list"
  confidence :: number

text \<open>
  The end of \<open>handleTrade\<close>: the portfolio and the balance are written first, then the
  transaction log is read, extended and written inside a \<open>try\<close>.
\<close>

definition store_trade ::
  "StockPrediction \<Rightarrow> side \<Rightarrow> int \<Rightarrow> string \<Rightarrow> number \<Rightarrow> holding list \<Rightarrow> localStorage
     \<Rightarrow> alert option \<times> localStorage" where
  "store_trade pred type quantity now balance portfolio ls =
     (let ls1 = ls\<lparr>ls_portfolio := Some (Text portfolio), ls_balance := Some (Text balance)\<rparr>;
          tx = \<lparr>tx_ticker = ticker pred, tx_type = type, tx_quantity = quantity,
                tx_price = Some (current_price pred), tx_timestamp = now\<rparr>
      in case JSON_parse (or_default (ls_transactions ls1) []) of
           Inl _ \<Rightarrow> (Some Failed_to_save_transaction, ls1)
         | Inr existing \<Rightarrow>
             (Some (Order_placed type quantity (ticker pred)),
              ls1\<lparr>ls_transactions := Some (Text (map JSON_roundtrip_tx (existing @ [tx])))\<rparr>))"

definition handleTrade ::
  "StockPrediction option \<Rightarrow> side \<Rightarrow> string option \<Rightarrow> string \<Rightarrow> localStorage
     \<Rightarrow> alert option \<times> localStorage" where
  "handleTrade prediction type qtyStr now ls =
     (case prediction of None \<Rightarrow> (None, ls) | Some pred \<Rightarrow>
      (case prompt_text qtyStr of None \<Rightarrow> (None, ls) | Some s \<Rightarrow>
       (case parseInt s of None \<Rightarrow> (Some Invalid_quantity, ls) | Some quantity \<Rightarrow>
        if quantity \<le> 0 then (Some Invalid_quantity, ls)
        else
          let portfolio = (case JSON_parse (or_default (ls_portfolio ls) []) of
                             Inl _ \<Rightarrow> [] | Inr p \<Rightarrow> p);
              idx = findIndex (\<lambda>item. h_ticker item = ticker pred) portfolio;
              currentQty = (case idx of None \<Rightarrow> 0 | Some i \<Rightarrow> h_quantity (portfolio ! i));
              balance = parseFloat (or_default (ls_balance ls) (Finite 1000000));
              totalValue = double (js_mul (current_price pred) (Finite (of_int quantity)))
          in (case type of
                SELL \<Rightarrow>
                  if quantity > currentQty
                  then (Some (Cannot_sell_more_than_you_own currentQty), ls)
                  else store_trade pred type quantity now (double (js_add balance totalValue))
                         (case idx of None \<Rightarrow> portfolio | Some i \<Rightarrow> sell_at i quantity portfolio) ls
              | BUY \<Rightarrow>
                  if js_gt totalValue balance
                  then (Some (Insufficient_balance balance totalValue), ls)
                  else store_trade pred type quantity now (double (js_sub balance totalValue))
                         (case idx of
                            None \<Rightarrow> portfolio @ [\<lparr>h_ticker = ticker pred, h_quantity = quantity\<rparr>]
                          | Some i \<Rightarrow> buy_at i quantity portfolio) ls))))"

text \<open>The effect run when the widget mounts: the balance is written if its key is not there.\<close>

definition ensure_balance :: "localStorage \<Rightarrow> localStorage" where
  "ensure_balance ls =
     (if ls_balance ls = None then ls\<lparr>ls_balance := Some (Text (Finite 1000000))\<rparr> else ls)"

section \<open>The portfolio page (DemoTrading)\<close>

text \<open>The component state: the three \<open>useState\<close> cells, with their initial values.\<close>

record DemoTrading =
  balance :: number
  portfolio :: "holding list"
  transactions :: "transaction list"

definition initial_state :: DemoTrading where
  "initial_state = \<lparr>balance = Finite 1000000, portfolio = [], transactions = []\<rparr>"

text \<open>
  The effect run when the page mounts. \<open>parseFloat\<close> never throws; each \<open>JSON.parse\<close>
  may, and nothing catches it.
\<close>

definition mount_effect :: "localStorage \<Rightarrow> exn + DemoTrading" where
  "mount_effect ls =
     (let b = parseFloat (or_default (ls_balance ls) (Finite 1000000))
      in case JSON_parse (or_default (ls_portfolio ls) []) of
           Inl e \<Rightarrow> Inl e
         | Inr p \<Rightarrow>
             (case JSON_parse (or_default (ls_transactions ls) []) of
                Inl e \<Rightarrow> Inl e
              | Inr t \<Rightarrow> Inr \<lparr>balance = b, portfolio = p, transactions = t\<rparr>))"

definition updateAll ::
  "number \<Rightarrow> holding list \<Rightarrow> transaction list \<Rightarrow> localStorage \<Rightarrow> DemoTrading \<times> localStorage" where
  "updateAll newBalance newPortfolio newTransactions ls =
     (\<lparr>balance = newBalance, portfolio = newPortfolio, transactions = newTransactions\<rparr>,
      ls\<lparr>ls_balance := Some (Text newBalance),
         ls_portfolio := Some (Text newPortfolio),
         ls_transactions := Some (Text (map JSON_roundtrip_tx newTransactions))\<rparr>)"

text \<open>
  \<open>handlePortfolioTrade\<close>. The price is that of the last transaction of the ticker, 0
  when there is none; \<open>!price\<close> is true of \<open>null\<close>, NaN and 0. The statement
  \<open>newPortfolio[idx].quantity -= quantity\<close> has no guard on \<open>idx\<close>: at -1 it would
  raise a TypeError, which is the \<open>Inl\<close> branch below.
\<close>

definition handlePortfolioTrade ::
  "string \<Rightarrow> side \<Rightarrow> string option \<Rightarrow> string \<Rightarrow> DemoTrading \<Rightarrow> localStorage
     \<Rightarrow> exn + (alert option \<times> DemoTrading \<times> localStorage)" where
  "handlePortfolioTrade tkr type qtyStr now st ls =
     (case prompt_text qtyStr of None \<Rightarrow> Inr (None, st, ls) | Some s \<Rightarrow>
      (case parseInt s of None \<Rightarrow> Inr (Some Invalid_quantity, st, ls) | Some quantity \<Rightarrow>
       if quantity \<le> 0 then Inr (Some Invalid_quantity, st, ls)
       else
         (case (case find (\<lambda>tx. tx_ticker tx = tkr) (rev (transactions st)) of
                  None \<Rightarrow> Some (Finite 0) | Some lastTx \<Rightarrow> tx_price lastTx) of
            None \<Rightarrow> Inr (Some No_price_info, st, ls)
          | Some price \<Rightarrow>
              if price = NaN \<or> price = Finite 0 then Inr (Some No_price_info, st, ls)
              else
                let idx = findIndex (\<lambda>item. h_ticker item = tkr) (portfolio st);
                    currentQty = (case idx of None \<Rightarrow> 0 | Some i \<Rightarrow> h_quantity (portfolio st ! i));
                    newTx = \<lparr>tx_ticker = tkr, tx_type = type, tx_quantity = quantity,
                             tx_price = Some price, tx_timestamp = now\<rparr>;
                    newTransactions = transactions st @ [newTx]
                in (case type of
                      SELL \<Rightarrow>
                        if quantity > currentQty
                        then Inr (Some (Cannot_sell_more_than_you_own currentQty), st, ls)
                        else
                          (case idx of
                             None \<Rightarrow> Inl TypeError
                           | Some i \<Rightarrow>
                               (case updateAll
                                       (double (js_add (balance st)
                                          (double (js_mul price (Finite (of_int quantity))))))
                                       (sell_at i quantity (portfolio st)) newTransactions ls of
                                  (st', ls') \<Rightarrow> Inr (Some (Order_placed type quantity tkr), st', ls')))
                    | BUY \<Rightarrow>
                        let totalCost = double (js_mul price (Finite (of_int quantity)))
                        in if js_gt totalCost (balance st)
                           then Inr (Some (Insufficient_balance (balance st) totalCost), st, ls)
                           else
                             (case updateAll (double (js_sub (balance st) totalCost))
                                     (case idx of
                                        None \<Rightarrow> portfolio st @ [\<lparr>h_ticker = tkr, h_quantity = quantity\<rparr>]
                                      | Some i \<Rightarrow> buy_at i quantity (portfolio st))
                                     newTransactions ls of
                                (st', ls') \<Rightarrow> Inr (Some (Order_placed type quantity tkr), st', ls'))))))"

section \<open>The browser session\<close>

text \<open>
  The ledger lives in \<open>localStorage\<close>; the portfolio page, while mounted, works on its own
  copy taken when it mounted. An exception in the mount effect takes the page down.
\<close>

record system =
  storage :: localStorage
  demo :: "DemoTrading option"

datatype event =
    Widget_mount
  | Widget_trade "StockPrediction option" side "string option" string
  | Demo_mount
  | Demo_unmount
  | Demo_trade string side "string option" string

definition seed :: system where
  "seed = \<lparr>storage = \<lparr>ls_balance = None, ls_portfolio = None, ls_transactions = None\<rparr>, demo = None\<rparr>"

fun step :: "event \<Rightarrow> system \<Rightarrow> alert option \<times> system" where
  "step Widget_mount s = (None, s\<lparr>storage := ensure_balance (storage s)\<rparr>)"
| "step (Widget_trade prediction type qtyStr now) s =
     (case handleTrade prediction type qtyStr now (storage s) of
        (a, ls) \<Rightarrow> (a, s\<lparr>storage := ls\<rparr>))"
| "step Demo_mount s =
     (None, s\<lparr>demo := (case mount_effect (storage s) of Inl _ \<Rightarrow> None | Inr st \<Rightarrow> Some st)\<rparr>)"
| "step Demo_unmount s = (None, s\<lparr>demo := None\<rparr>)"
| "step (Demo_trade tkr type qtyStr now) s =
     (case demo s of
        None \<Rightarrow> (None, s)
      | Some st \<Rightarrow>
          (case handlePortfolioTrade tkr type qtyStr now st (storage s) of
             Inl _ \<Rightarrow> (None, s)
           | Inr (a, st', ls') \<Rightarrow> (a, \<lparr>storage = ls', demo = Some st'\<rparr>)))"

fun run :: "event list \<Rightarrow> system \<Rightarrow> system" where
  "run [] s = s"
| "run (e # es) s = run es (snd (step e s))"

text \<open>The ledger as the handlers read it from storage.\<close>

definition stored_balance :: "localStorage \<Rightarrow> number" where
  "stored_balance ls = parseFloat (or_default (ls_balance ls) (Finite 1000000))"

definition stored_portfolio :: "localStorage \<Rightarrow> holding list" where
  "stored_portfolio ls =
     (case JSON_parse (or_default (ls_portfolio ls) []) of Inl _ \<Rightarrow> [] | Inr p \<Rightarrow> p)"

definition stored_transactions :: "localStorage \<Rightarrow> transaction list" where
  "stored_transactions ls =
     (case JSON_parse (or_default (ls_transactions ls) []) of Inl _ \<Rightarrow> [] | Inr t \<Rightarrow> t)"

text \<open>The net quantity of a ticker over a transaction log: BUY legs minus SELL legs.\<close>

definition signed_quantity :: "string \<Rightarrow> transaction \<Rightarrow> int" where
  "signed_quantity t tx =
     (if tx_ticker tx = t then (case tx_type tx of BUY \<Rightarrow> tx_quantity tx | SELL \<Rightarrow> - tx_quantity tx)
      else 0)"

definition net_quantity :: "transaction list \<Rightarrow> string \<Rightarrow> int" where
  "net_quantity txs t = sum_list (map (signed_quantity t) txs)"

section \<open>Retrieving and normalizing a prediction\<close>

text \<open>
  The payload of the prediction endpoint, by what the code tests of each field:
  the ticker is empty when absent; \<open>current_price\<close> is \<open>None\<close> when it is not of type
  number; an array field is \<open>None\<close> when it is undefined or null; \<open>confidence\<close> is
  \<open>None\<close> when it is undefined or null. A field holding a value of another type is
  outside this model.
\<close>

record PredictionApiResponse =
  r_ticker :: string
  r_current_price :: "number option"
  r_prediction_dates :: "string list option"
  r_prediction_prices :: "number list option"
  r_predicted_prices :: "number list option"
  r_confidence :: "number option"

text \<open>\<open>data.prediction_prices || data.predicted_prices || []\<close>: an array, even an empty one, is truthy.\<close>

definition choose_prices :: "PredictionApiResponse \<Rightarrow> number list" where
  "choose_prices d =
     (case r_prediction_prices d of
        Some xs \<Rightarrow> xs
      | None \<Rightarrow> (case r_predicted_prices d of Some ys \<Rightarrow> ys | None \<Rightarrow> []))"

text \<open>The confidence block, which the primary and the simplified path both contain.\<close>

definition convert_confidence :: "number option \<Rightarrow> number" where
  "convert_confidence c =
     (case c of
        None \<Rightarrow> Finite 0
      | Some x \<Rightarrow> if js_lt x (Finite 1) then js_mul x (Finite 100) else x)"

definition normalizedData :: "string \<Rightarrow> PredictionApiResponse \<Rightarrow> number list \<Rightarrow> StockPrediction" where
  "normalizedData symbol d prices =
     \<lparr>ticker = (if r_ticker d = [] then symbol else r_ticker d),
      current_price = (case r_current_price d of Some c \<Rightarrow> c | None \<Rightarrow> Finite 0),
      prediction_dates = (case r_prediction_dates d of Some ds \<Rightarrow> ds | None \<Rightarrow> []),
      prediction_prices = prices,
      confidence = convert_confidence (r_confidence d)\<rparr>"

datatype prediction_error = No_prediction_data | Invalid_prediction_data | No_prediction_points

text \<open>What \<open>fetchPrediction\<close> does with the data of the primary request.\<close>

definition normalize_primary ::
  "string \<Rightarrow> PredictionApiResponse option \<Rightarrow> prediction_error + StockPrediction" where
  "normalize_primary symbol data =
     (case data of
        None \<Rightarrow> Inl No_prediction_data
      | Some d \<Rightarrow>
          if (r_prediction_prices d = None \<and> r_predicted_prices d = None)
             \<or> r_prediction_dates d = None \<or> r_current_price d = None
          then Inl Invalid_prediction_data
          else
            let prices = choose_prices d
            in if length prices = 0
                  \<or> length (case r_prediction_dates d of Some ds \<Rightarrow> ds | None \<Rightarrow> []) = 0
               then Inl No_prediction_points
               else Inr (normalizedData symbol d prices))"

text \<open>What it does with the data of the simplified request; \<open>None\<close> falls through to the error report.\<close>

definition normalize_simplified ::
  "string \<Rightarrow> PredictionApiResponse option \<Rightarrow> StockPrediction option" where
  "normalize_simplified symbol data =
     (case data of
        None \<Rightarrow> None
      | Some d \<Rightarrow>
          if (case r_prediction_prices d of Some xs \<Rightarrow> length xs > 0 | None \<Rightarrow> False)
             \<or> (case r_predicted_prices d of Some ys \<Rightarrow> length ys > 0 | None \<Rightarrow> False)
          then Some (normalizedData symbol d (choose_prices d))
          else None)"

text \<open>
  The object \<open>stockApi.predict\<close> builds from the body of the response; \<open>x || 0\<close> turns
  NaN and 0 into 0.
\<close>

definition predictionData :: "string \<Rightarrow> PredictionApiResponse \<Rightarrow> PredictionApiResponse" where
  "predictionData tkr d =
     \<lparr>r_ticker = (if r_ticker d = [] then tkr else r_ticker d),
      r_current_price = r_current_price d,
      r_prediction_dates = Some (case r_prediction_dates d of Some ds \<Rightarrow> ds | None \<Rightarrow> []),
      r_prediction_prices = Some (choose_prices d),
      r_predicted_prices = None,
      r_confidence =
        Some (case r_confidence d of
                None \<Rightarrow> Finite 0
              | Some c \<Rightarrow> if c = NaN \<or> c = Finite 0 then Finite 0 else c)\<rparr>"

text \<open>
  The network is a function from the number of the request, counted from 0 over the whole
  fetch, to what that request meets: a body (\<open>None\<close> for an empty one) or a failure. The
  trace records each request, with its \<open>simplify\<close> flag and timeout in milliseconds, and each
  pause. Of an error only the two things the code reads are kept: whether its message
  contains \<open>timeout\<close>, and its status.
\<close>

datatype failure = Timeout | Status nat | Network_error | No_data_received

datatype response = Body "PredictionApiResponse option" | Fails failure

datatype action = Request bool nat | Wait nat

definition attempt :: "string \<Rightarrow> response \<Rightarrow> failure + PredictionApiResponse" where
  "attempt tkr r =
     (case r of
        Fails f \<Rightarrow> Inl f
      | Body None \<Rightarrow> Inl No_data_received
      | Body (Some d) \<Rightarrow> Inr (predictionData tkr d))"

text \<open>
  The loop of \<open>stockApi.predict\<close>, by recursion on \<open>retries\<close>: at 0 the error is thrown,
  otherwise \<open>retries\<close> is decremented and the pause is \<open>2000 * (3 - retries)\<close>.
  The result carries the number of the next request.
\<close>

fun predict_loop ::
  "nat \<Rightarrow> string \<Rightarrow> bool \<Rightarrow> (nat \<Rightarrow> response) \<Rightarrow> nat
     \<Rightarrow> action list \<times> (failure + PredictionApiResponse) \<times> nat" where
  "predict_loop 0 tkr simplify net k =
     ([Request simplify (if simplify then 5000 else 15000)], attempt tkr (net k), Suc k)"
| "predict_loop (Suc retries) tkr simplify net k =
     (case attempt tkr (net k) of
        Inr d \<Rightarrow> ([Request simplify (if simplify then 5000 else 15000)], Inr d, Suc k)
      | Inl e \<Rightarrow>
          (case predict_loop retries tkr simplify net (Suc k) of
             (tr, res, k') \<Rightarrow>
               (Request simplify (if simplify then 5000 else 15000)
                  # Wait (2000 * (3 - retries)) # tr, res, k')))"

definition predict ::
  "string \<Rightarrow> bool \<Rightarrow> (nat \<Rightarrow> response) \<Rightarrow> nat
     \<Rightarrow> action list \<times> (failure + PredictionApiResponse) \<times> nat" where
  "predict tkr simplify net k = predict_loop 2 tkr simplify net k"

text \<open>
  \<open>fetchPrediction\<close>, as the requests it makes and what it leaves on display. The timer
  of 8 seconds is left out: its callback runs outside the \<open>try\<close> and stops no request.
  The exchange sent with a request is left out as well: the network here answers by the
  number of the request alone.
\<close>

datatype display =
    Prediction StockPrediction
  | Rejected prediction_error
  | Not_found
  | Bad_request
  | Failed_to_fetch failure

definition report :: "failure \<Rightarrow> display" where
  "report err =
     (if err = Status 404 then Not_found
      else if err = Status 400 then Bad_request
      else Failed_to_fetch err)"

definition fetchPrediction :: "string \<Rightarrow> (nat \<Rightarrow> response) \<Rightarrow> action list \<times> display option" where
  "fetchPrediction symbol net =
     (if symbol = [] then ([], None)
      else
        (case predict symbol False net 0 of
           (tr, Inr data, k) \<Rightarrow>
             (tr, Some (case normalize_primary symbol (Some data) of
                          Inl e \<Rightarrow> Rejected e | Inr p \<Rightarrow> Prediction p))
         | (tr, Inl err, k) \<Rightarrow>
             if err = Timeout
             then
               (case predict symbol True net k of
                  (tr', Inr data, k') \<Rightarrow>
                    (case normalize_simplified symbol (Some data) of
                       Some p \<Rightarrow> (tr @ tr', Some (Prediction p))
                     | None \<Rightarrow> (tr @ tr', Some (report err)))
                | (tr', Inl retryErr, k') \<Rightarrow> (tr @ tr', Some (report err)))
             else (tr, Some (report err))))"

section \<open>Properties of a ledger\<close>

fun nonneg_finite :: "number \<Rightarrow> bool" where
  "nonneg_finite (Finite r) = (0 \<le> r)"
| "nonneg_finite _ = False"

text \<open>The test \<open>b >= 0\<close> of JavaScript: true of \<open>Infinity\<close>, false of NaN.\<close>

fun nonnegative :: "number \<Rightarrow> bool" where
  "nonnegative (Finite r) = (0 \<le> r)"
| "nonnegative PosInf = True"
| "nonnegative _ = False"

text \<open>
  A portfolio agrees with a transaction log when it has one entry for a ticker at most, each
  of a positive quantity, and the quantity found for every ticker is its net quantity in the
  log.
\<close>

definition consistent :: "holding list \<Rightarrow> transaction list \<Rightarrow> bool" where
  "consistent p txs =
     (distinct (map h_ticker p) \<and> (\<forall>h \<in> set p. 0 < h_quantity h)
      \<and> (\<forall>t. held_quantity p t = net_quantity txs t))"

definition parseable :: "'a stored option \<Rightarrow> bool" where
  "parseable c = (c \<noteq> Some Malformed)"

text \<open>A trade of the widget is at a valid reference price when the price shown is finite and not negative.\<close>

fun valid_price :: "event \<Rightarrow> bool" where
  "valid_price (Widget_trade (Some pred) type qtyStr now) = nonneg_finite (current_price pred)"
| "valid_price _ = True"

text \<open>
  The range in which no value of a trade overflows: a quantity of \<open>2 ^ 53\<close> at most, the
  integers up to there being doubles, and a price of \<open>2 ^ 969\<close> at most, about
  \<open>5 * 10 ^ 291\<close>; their product is \<open>2 ^ 1022\<close> at most.
\<close>

definition price_limit :: real where
  "price_limit = 2 ^ 969"

definition quantity_limit :: int where
  "quantity_limit = 2 ^ 53"

fun modest :: "number \<Rightarrow> bool" where
  "modest (Finite r) = (0 \<le> r \<and> r \<le> price_limit)"
| "modest _ = False"

text \<open>The quantity a request asks for: the number typed when it is a valid quantity, else 0.\<close>

definition entered :: "string option \<Rightarrow> int" where
  "entered qtyStr =
     (case prompt_text qtyStr of
        None \<Rightarrow> 0
      | Some s \<Rightarrow> (case parseInt s of None \<Rightarrow> 0 | Some n \<Rightarrow> max 0 n))"

fun quantity_typed :: "event \<Rightarrow> int" where
  "quantity_typed (Widget_trade prediction type qtyStr now) = entered qtyStr"
| "quantity_typed (Demo_trade tkr type qtyStr now) = entered qtyStr"
| "quantity_typed _ = 0"

fun in_range :: "event \<Rightarrow> bool" where
  "in_range (Widget_trade (Some pred) type qtyStr now) =
     (modest (current_price pred) \<and> entered qtyStr \<le> quantity_limit)"
| "in_range (Demo_trade tkr type qtyStr now) = (entered qtyStr \<le> quantity_limit)"
| "in_range _ = True"

definition priced :: "transaction list \<Rightarrow> bool" where
  "priced txs = (\<forall>tx \<in> set txs. case tx_price tx of None \<Rightarrow> False | Some pr \<Rightarrow> modest pr)"

text \<open>The value of a trade as both handlers compute it: the product of price and quantity, a double.\<close>

definition trade_value :: "number \<Rightarrow> int \<Rightarrow> number" where
  "trade_value price quantity = double (js_mul price (Finite (of_int quantity)))"

fun placed :: "alert option \<Rightarrow> bool" where
  "placed (Some (Order_placed sd n t)) = True"
| "placed _ = False"

text \<open>
  How a request of a side moves a balance. When the order is placed the value of the trade is a
  finite number that is not negative; a purchase is of a value that the balance is not below,
  and the new balance is the old one less the value; a sale adds the value; the new balance
  passes the test \<open>b >= 0\<close>. When the order is not placed the balance is as before.
\<close>

definition balance_moved :: "alert option \<Rightarrow> side \<Rightarrow> number \<Rightarrow> number \<Rightarrow> bool" where
  "balance_moved a ty old new =
     (if placed a
      then nonnegative new
           \<and> (\<exists>v. 0 \<le> v
                \<and> (case ty of
                       BUY \<Rightarrow> \<not> js_gt (Finite v) old \<and> new = double (js_sub old (Finite v))
                     | SELL \<Rightarrow> new = double (js_add old (Finite v))))
      else new = old)"

definition solvent :: "system \<Rightarrow> bool" where
  "solvent s =
     (nonnegative (stored_balance (storage s))
      \<and> (case demo s of None \<Rightarrow> True | Some st \<Rightarrow> nonnegative (balance st)))"

definition agrees :: "system \<Rightarrow> bool" where
  "agrees s =
     (consistent (stored_portfolio (storage s)) (stored_transactions (storage s))
      \<and> (case demo s of None \<Rightarrow> True | Some st \<Rightarrow> consistent (portfolio st) (transactions st)))"

text \<open>The price the portfolio page trades at: that of the last transaction of the ticker, 0 without one.\<close>

definition last_price :: "transaction list \<Rightarrow> string \<Rightarrow> number option" where
  "last_price txs t =
     (case find (\<lambda>tx. tx_ticker tx = t) (rev txs) of
        None \<Rightarrow> Some (Finite 0) | Some lastTx \<Rightarrow> tx_price lastTx)"

text \<open>A log is as \<open>JSON.stringify\<close> leaves it when no price in it is NaN or infinite.\<close>

definition json_stable :: "transaction list \<Rightarrow> bool" where
  "json_stable txs = (\<forall>tx \<in> set txs. JSON_roundtrip_tx tx = tx)"

text \<open>No quantity of a portfolio is above a bound.\<close>

definition capped :: "int \<Rightarrow> holding list \<Rightarrow> bool" where
  "capped T p = (\<forall>h \<in> set p. h_quantity h \<le> T)"

definition recorded :: "int \<Rightarrow> system \<Rightarrow> bool" where
  "recorded T s =
     (parseable (ls_transactions (storage s)) \<and> json_stable (stored_transactions (storage s))
      \<and> capped T (stored_portfolio (storage s))
      \<and> (case demo s of None \<Rightarrow> True | Some st \<Rightarrow> json_stable (transactions st) \<and> capped T (portfolio st))
      \<and> agrees s)"

definition funded :: "system \<Rightarrow> bool" where
  "funded s =
     (parseable (ls_transactions (storage s)) \<and> priced (stored_transactions (storage s))
      \<and> (case demo s of None \<Rightarrow> True | Some st \<Rightarrow> priced (transactions st))
      \<and> solvent s)"

text \<open>
  What an order does to the portfolio and the log a handler works on: when it is placed, one
  transaction of its ticker, side and quantity is appended and the quantity held moves by that
  transaction; otherwise both are as before.
\<close>

definition order_recorded ::
  "alert option \<Rightarrow> holding list \<times> transaction list \<Rightarrow> holding list \<times> transaction list \<Rightarrow> bool" where
  "order_recorded a before after =
     (if placed a
      then \<exists>tx. a = Some (Order_placed (tx_type tx) (tx_quantity tx) (tx_ticker tx))
             \<and> snd after = snd before @ [tx]
             \<and> (\<forall>u. held_quantity (fst after) u = held_quantity (fst before) u + signed_quantity u tx)
      else after = before)"

text \<open>
  The copy of the portfolio page is in step with storage when its portfolio and its log are
  those in storage. The page writes its copy back: after an order that it placed, the
  portfolio and the log in storage are those of the page.
\<close>

definition in_step :: "DemoTrading \<Rightarrow> localStorage \<Rightarrow> bool" where
  "in_step st ls = (portfolio st = stored_portfolio ls \<and> transactions st = stored_transactions ls)"

definition written_back :: "alert option \<Rightarrow> localStorage \<Rightarrow> DemoTrading \<Rightarrow> localStorage \<Rightarrow> bool" where
  "written_back a ls st' ls' =
     (if placed a
      then stored_portfolio ls' = portfolio st' \<and> stored_transactions ls' = transactions st'
      else ls' = ls)"

section \<open>Example data\<close>

definition example_prediction :: "string \<Rightarrow> number \<Rightarrow> StockPrediction" where
  "example_prediction t p =
     \<lparr>ticker = t, current_price = p, prediction_dates = [], prediction_prices = [],
      confidence = Finite 0\<rparr>"

text \<open>The storage after a purchase of 10 shares at 2500 from the seed (Scenario A of the specification).\<close>

definition scenario_A :: "string \<Rightarrow> string \<Rightarrow> localStorage" where
  "scenario_A t now =
     \<lparr>ls_balance = Some (Text (Finite 975000)),
      ls_portfolio = Some (Text [\<lparr>h_ticker = t, h_quantity = 10\<rparr>]),
      ls_transactions = Some (Text [\<lparr>tx_ticker = t, tx_type = BUY, tx_quantity = 10,
         tx_price = Some (Finite 2500), tx_timestamp = now\<rparr>])\<rparr>"

text \<open>A session: a purchase, a refused sale, then a sale from the portfolio page.\<close>

definition example_session :: "event list" where
  "example_session =
     [Widget_mount,
      Widget_trade (Some (example_prediction ''TCS'' (Finite 2500))) BUY (Some ''10'') ''day 1'',
      Widget_trade (Some (example_prediction ''TCS'' (Finite 2600))) SELL (Some ''15'') ''day 2'',
      Demo_mount,
      Demo_trade ''TCS'' SELL (Some ''4'') ''day 3'']"

text \<open>A session in which 10 shares are bought at the price 0 and the portfolio page is opened.\<close>

definition zero_price_session :: "event list" where
  "zero_price_session =
     [Widget_trade (Some (example_prediction ''TCS'' (Finite 0))) BUY (Some ''10'') ''day 1'',
      Demo_mount]"

text \<open>
  A session of three trades of 10 shares through the widget: bought at the price 0, sold at
  the price \<open>2 ^ 1023\<close>, about \<open>8.99 * 10 ^ 307\<close> and a double, and bought at that price
  again.
\<close>

definition overflow_session :: "event list" where
  "overflow_session =
     [Widget_trade (Some (example_prediction ''TCS'' (Finite 0))) BUY (Some ''10'') ''day 1'',
      Widget_trade (Some (example_prediction ''TCS'' (Finite (2 ^ 1023)))) SELL (Some ''10'') ''day 2'',
      Widget_trade (Some (example_prediction ''TCS'' (Finite (2 ^ 1023)))) BUY (Some ''10'') ''day 3'']"

text \<open>A session in which \<open>2 ^ 53\<close> shares are bought at the price 0, and then 1 more.\<close>

definition large_session :: "event list" where
  "large_session =
     [Widget_trade (Some (example_prediction ''TCS'' (Finite 0))) BUY (Some ''9007199254740992'') ''day 1'',
      Widget_trade (Some (example_prediction ''TCS'' (Finite 0))) BUY (Some ''1'') ''day 2'']"

text \<open>
  A session in which the portfolio page is opened after a first purchase, a second purchase is
  made through the widget, in another tab, and the page then sells.
\<close>

definition stale_session :: "event list" where
  "stale_session =
     [Widget_trade (Some (example_prediction ''TCS'' (Finite 2500))) BUY (Some ''10'') ''day 1'',
      Demo_mount,
      Widget_trade (Some (example_prediction ''TCS'' (Finite 2500))) BUY (Some ''5'') ''day 2'',
      Demo_trade ''TCS'' SELL (Some ''4'') ''day 3'']"

text \<open>A key is absent when \<open>getItem\<close> gives null or the empty string.\<close>

fun absent :: "'a stored option \<Rightarrow> bool" where
  "absent None = True"
| "absent (Some Empty_text) = True"
| "absent _ = False"

text \<open>A payload of the prediction endpoint, and variants of it.\<close>

definition example_payload :: PredictionApiResponse where
  "example_payload =
     \<lparr>r_ticker = ''TCS'', r_current_price = Some (Finite 2500),
      r_prediction_dates = Some [''2024-01-02'', ''2024-01-03''],
      r_prediction_prices = Some [Finite 2510, Finite 2520],
      r_predicted_prices = None,
      r_confidence = Some (Finite (82 / 100))\<rparr>"

definition both_series :: PredictionApiResponse where
  "both_series =
     example_payload\<lparr>r_prediction_prices := Some [],
                     r_predicted_prices := Some [Finite 2510, Finite 2520]\<rparr>"

definition mismatched_payload :: PredictionApiResponse where
  "mismatched_payload =
     example_payload\<lparr>r_prediction_dates := Some [''2024-01-02'', ''2024-01-03'', ''2024-01-04'']\<rparr>"

text \<open>A network on which the first four requests time out and every later one is answered.\<close>

definition flaky_network :: "nat \<Rightarrow> response" where
  "flaky_network k = (if k < 4 then Fails Timeout else Body (Some example_payload))"

text \<open>
  The traces a call of \<open>stockApi.predict\<close> can leave, as the specification words them: up to
  3 attempts, with a pause of 2000 ms times the number of the attempt before the second and
  the third.
\<close>

definition attempt_traces :: "bool \<Rightarrow> action list list" where
  "attempt_traces simplify =
     (let r = Request simplify (if simplify then 5000 else 15000)
      in [[r], [r, Wait (2000 * 2), r], [r, Wait (2000 * 2), r, Wait (2000 * 3), r]])"

definition failed :: "failure + PredictionApiResponse \<Rightarrow> bool" where
  "failed r = (case r of Inl e \<Rightarrow> True | Inr d \<Rightarrow> False)"

text \<open>A network on which the first three requests time out and every later one is answered.\<close>

definition slow_network :: "nat \<Rightarrow> response" where
  "slow_network k = (if k < 3 then Fails Timeout else Body (Some example_payload))"

section \<open>Rounding to a double\<close>

lemma round_half_even_of_int [simp]: "round_half_even (of_int j) = j"
  by (simp add: round_half_even_def)

lemma round_half_even_ge: "of_int j \<le> y \<Longrightarrow> j \<le> round_half_even y"
proof -
  assume "of_int j \<le> y"
  then have "j \<le> \<lfloor>y\<rfloor>" by (simp add: le_floor_iff)
  moreover have "\<lfloor>y\<rfloor> \<le> round_half_even y" by (simp add: round_half_even_def Let_def)
  ultimately show ?thesis by simp
qed

lemma round_half_even_le: "y \<le> of_int j \<Longrightarrow> round_half_even y \<le> j"
proof -
  assume a: "y \<le> of_int j"
  show ?thesis
  proof (cases "y = of_int j")
    case True
    then show ?thesis by simp
  next
    case False
    with a have "y < of_int j" by simp
    then have "\<lfloor>y\<rfloor> < j" by (simp add: floor_less_iff)
    then show ?thesis by (auto simp: round_half_even_def Let_def)
  qed
qed

lemma round_to_nonneg: "0 \<le> x \<Longrightarrow> 0 \<le> round_to p e x"
proof -
  assume x: "0 \<le> x"
  have "0 \<le> round_half_even (\<bar>x\<bar> * 2 ^ e / 2 ^ s)" for s :: nat
    by (rule round_half_even_ge) simp
  with x show ?thesis
    by (simp add: round_to_def Let_def sgn_if)
qed

text \<open>A multiple of the spacing is left as it is.\<close>

lemma round_to_exact:
  assumes N: "\<bar>x\<bar> * 2 ^ e = of_int k" and s: "floorlog 2 (nat k) - p = s" and d: "k = j * 2 ^ s"
  shows "round_to p e x = x"
proof -
  have q: "real_of_int k / 2 ^ s = of_int j"
    unfolding d by simp
  have "round_to p e x = sgn x * (of_int j * 2 ^ s / 2 ^ e)"
    unfolding round_to_def Let_def N floor_of_int s q round_half_even_of_int ..
  also have "of_int j * 2 ^ s = \<bar>x\<bar> * 2 ^ e"
    unfolding N d by simp
  also have "sgn x * (\<bar>x\<bar> * 2 ^ e / 2 ^ e) = x"
    by (simp add: sgn_if)
  finally show ?thesis .
qed

lemma round_to_of_int:
  assumes "\<bar>m\<bar> \<le> 2 ^ p" and "0 < p"
  shows "round_to p e (of_int m) = of_int m"
proof (cases "m = 0")
  case True
  then show ?thesis by (simp add: round_to_def)
next
  case False
  define a where "a = nat \<bar>m\<bar>"
  from False have a: "0 < a" by (simp add: a_def)
  have N: "\<bar>real_of_int m\<bar> * 2 ^ e = of_int (int (a * 2 ^ e))"
    by (simp add: a_def)
  have L: "floorlog 2 (nat (int (a * 2 ^ e))) = floorlog 2 a + e"
    unfolding nat_int using a by (intro floorlog_power) simp_all
  from a have L1: "1 \<le> floorlog 2 a" by (simp add: floorlog_def)
  show ?thesis
  proof (cases "a < 2 ^ p")
    case True
    then have "floorlog 2 a \<le> p" by (simp add: floorlog_le_iff)
    define s where "s = floorlog 2 a + e - p"
    from \<open>floorlog 2 a \<le> p\<close> have "s \<le> e" by (simp add: s_def)
    then obtain c where c: "e = s + c" by (auto simp: le_iff_add)
    have d: "int (a * 2 ^ e) = int (a * 2 ^ c) * 2 ^ s"
      unfolding c by (simp add: power_add)
    have "floorlog 2 (nat (int (a * 2 ^ e))) - p = s"
      unfolding L s_def ..
    with N show ?thesis
      using d by (rule round_to_exact)
  next
    case False
    with assms have ap: "a = 2 ^ p" by (simp add: a_def)
    have "floorlog 2 a = Suc p"
      unfolding ap using floorlog_power [of 1 2 p] by (simp add: floorlog_def)
    then have s: "floorlog 2 a + e - p = Suc e" by simp
    from assms(2) obtain p' where p': "p = Suc p'" by (cases p) auto
    have d: "int (a * 2 ^ e) = int (2 ^ p') * 2 ^ Suc e"
      unfolding ap p' by simp
    have "floorlog 2 (nat (int (a * 2 ^ e))) - p = Suc e"
      unfolding L s ..
    with N show ?thesis
      using d by (rule round_to_exact)
  qed
qed

text \<open>Bounds on the bit length of the scaled magnitude.\<close>

lemma round_to_le_power:
  assumes x: "0 \<le> x" and b: "x * 2 ^ e < 2 ^ w" and pw: "p \<le> w"
  shows "round_to p e x \<le> 2 ^ w / 2 ^ e"
proof -
  define N where "N = \<bar>x\<bar> * 2 ^ e"
  define k where "k = nat \<lfloor>N\<rfloor>"
  define s where "s = floorlog 2 k - p"
  from x b have N: "0 \<le> N" "N < 2 ^ w" by (simp_all add: N_def)
  then have "\<lfloor>N\<rfloor> < 2 ^ w" by (simp add: floor_less_iff)
  with N have "k < 2 ^ w" by (simp add: k_def nat_less_iff)
  then have L: "floorlog 2 k \<le> w" by (simp add: floorlog_le_iff)
  with pw have sw: "s \<le> w" by (simp add: s_def)
  then obtain c where c: "w = s + c" by (auto simp: le_iff_add)
  have "N / 2 ^ s \<le> 2 ^ w / 2 ^ s"
    using N by (simp add: divide_right_mono)
  also have "\<dots> = of_int (2 ^ c)"
    unfolding c by (simp add: power_add)
  finally have "round_half_even (N / 2 ^ s) \<le> 2 ^ c"
    by (rule round_half_even_le)
  then have "real_of_int (round_half_even (N / 2 ^ s)) \<le> 2 ^ c"
    by (metis of_int_le_iff of_int_numeral of_int_power)
  then have "real_of_int (round_half_even (N / 2 ^ s)) * 2 ^ s \<le> 2 ^ c * 2 ^ s"
    by (simp add: mult_right_mono)
  also have "\<dots> = 2 ^ w" unfolding c by (simp add: power_add)
  finally have "real_of_int (round_half_even (N / 2 ^ s)) * 2 ^ s / 2 ^ e \<le> 2 ^ w / 2 ^ e"
    by (simp add: divide_right_mono)
  moreover have "round_to p e x = sgn x * (real_of_int (round_half_even (N / 2 ^ s)) * 2 ^ s / 2 ^ e)"
    by (simp add: round_to_def Let_def N_def s_def k_def)
  moreover have "0 \<le> real_of_int (round_half_even (N / 2 ^ s)) * 2 ^ s / 2 ^ e"
    using N by (simp add: round_half_even_ge)
  ultimately show ?thesis
    using x by (auto simp: sgn_if intro: order_trans)
qed

lemma round_to_ge_power:
  assumes b: "2 ^ w \<le> x * 2 ^ e" and pw: "0 < p"
  shows "2 ^ w / 2 ^ e \<le> round_to p e x"
proof -
  define N where "N = \<bar>x\<bar> * 2 ^ e"
  define k where "k = nat \<lfloor>N\<rfloor>"
  define s where "s = floorlog 2 k - p"
  have "(0::real) < 2 ^ w" by simp
  then have "0 < x * 2 ^ e" using b by (rule less_le_trans)
  then have x: "0 < x" by (simp add: zero_less_mult_iff)
  with b have N: "2 ^ w \<le> N" by (simp add: N_def)
  then have "(2::int) ^ w \<le> \<lfloor>N\<rfloor>"
    by (simp add: le_floor_iff)
  then have kw: "2 ^ w \<le> k"
    unfolding k_def by (metis of_nat_numeral of_nat_power nat_mono nat_int)
  then have k0: "0 < k"
    by (metis less_le_trans zero_less_numeral zero_less_power)
  define L where "L = floorlog 2 k"
  from kw have Lw: "Suc w \<le> L" unfolding L_def by (intro floorlog_ge_SucI) simp_all
  from floorlog_bounds [OF k0, of 2] have lo: "2 ^ (L - 1) \<le> k"
    by (simp add: L_def)
  have kN: "real k \<le> N"
    using N unfolding k_def by (simp add: order_trans [OF _ N] less_imp_le)
  have low: "2 ^ (L - 1) \<le> N"
  proof -
    from lo have "real (2 ^ (L - 1)) \<le> real k" by (simp only: of_nat_le_iff)
    then have "(2::real) ^ (L - 1) \<le> real k" by simp
    then show ?thesis using kN by (rule order_trans)
  qed
  have sL: "s \<le> L - 1"
    using pw Lw by (simp add: s_def L_def [symmetric])
  then obtain c where c: "L - 1 = s + c" by (auto simp: le_iff_add)
  have "real_of_int (2 ^ c) = 2 ^ (L - 1) / 2 ^ s"
    unfolding c by (simp add: power_add)
  also have "\<dots> \<le> N / 2 ^ s"
    using low by (simp add: divide_right_mono)
  finally have "2 ^ c \<le> round_half_even (N / 2 ^ s)"
    by (rule round_half_even_ge)
  then have "(2::real) ^ c \<le> real_of_int (round_half_even (N / 2 ^ s))"
    by (metis of_int_le_iff of_int_numeral of_int_power)
  then have "(2::real) ^ c * 2 ^ s \<le> real_of_int (round_half_even (N / 2 ^ s)) * 2 ^ s"
    by (simp add: mult_right_mono)
  then have "(2::real) ^ (L - 1) \<le> real_of_int (round_half_even (N / 2 ^ s)) * 2 ^ s"
    unfolding c by (simp only: power_add mult.commute)
  moreover have "(2::real) ^ w \<le> 2 ^ (L - 1)"
    using Lw by (intro power_increasing) simp_all
  ultimately have "(2::real) ^ w \<le> real_of_int (round_half_even (N / 2 ^ s)) * 2 ^ s"
    by (rule order_trans [rotated])
  then have "(2::real) ^ w / 2 ^ e \<le> real_of_int (round_half_even (N / 2 ^ s)) * 2 ^ s / 2 ^ e"
    by (simp add: divide_right_mono)
  moreover have "round_to p e x = real_of_int (round_half_even (N / 2 ^ s)) * 2 ^ s / 2 ^ e"
    using x by (simp add: round_to_def Let_def N_def s_def k_def)
  ultimately show ?thesis by simp
qed

lemma nearest_of_int: "\<bar>m\<bar> \<le> 9007199254740992 \<Longrightarrow> nearest (of_int m) = of_int m"
  unfolding nearest_def by (rule round_to_of_int) simp_all

lemma nearest_nonneg: "0 \<le> x \<Longrightarrow> 0 \<le> nearest x"
  unfolding nearest_def by (rule round_to_nonneg)

lemma nearest_overflow: "2 ^ 1024 \<le> x \<Longrightarrow> 2 ^ 1024 \<le> nearest x"
proof -
  assume "2 ^ 1024 \<le> x"
  then have "2 ^ 1024 * 2 ^ 1074 \<le> x * 2 ^ 1074"
    by (rule mult_right_mono) simp
  then have "2 ^ (1024 + 1074) \<le> x * 2 ^ 1074"
    by (simp only: power_add)
  then have "2 ^ (1024 + 1074) / 2 ^ 1074 \<le> round_to 53 1074 x"
    by (rule round_to_ge_power) simp
  then show ?thesis
    by (simp only: power_add nonzero_mult_div_cancel_right nearest_def) simp
qed

lemma nearest_bounded: "0 \<le> x \<Longrightarrow> x < 2 ^ 1023 \<Longrightarrow> nearest x \<le> 2 ^ 1023"
proof -
  assume x: "0 \<le> x" and "x < 2 ^ 1023"
  then have "x * 2 ^ 1074 < 2 ^ 1023 * 2 ^ 1074"
    by (intro mult_strict_right_mono) simp_all
  then have "x * 2 ^ 1074 < 2 ^ (1023 + 1074)"
    by (simp only: power_add)
  with x have "round_to 53 1074 x \<le> 2 ^ (1023 + 1074) / 2 ^ 1074"
    by (rule round_to_le_power) simp
  then show ?thesis
    by (simp only: power_add nonzero_mult_div_cancel_right nearest_def) simp
qed

lemma round_double_of_int:
  "\<bar>m\<bar> \<le> 9007199254740992 \<Longrightarrow> round_double (of_int m) = Finite (of_int m)"
proof -
  assume m: "\<bar>m\<bar> \<le> 9007199254740992"
  then have "\<bar>real_of_int m\<bar> \<le> 9007199254740992"
    by (metis of_int_abs of_int_le_iff of_int_numeral)
  also have "\<dots> < 2 ^ 1024"
    by simp
  finally have "\<bar>real_of_int m\<bar> < 2 ^ 1024" .
  then show ?thesis
    unfolding round_double_def Let_def nearest_of_int [OF m] by (auto simp: abs_if split: if_splits)
qed

lemma round_int_small: "\<bar>m\<bar> \<le> 9007199254740992 \<Longrightarrow> round_int m = m"
  by (simp add: round_int_def nearest_of_int)

lemma round_int_tie: "round_int 9007199254740993 = 9007199254740992"
proof -
  have k: "\<bar>9007199254740993 :: real\<bar> * 2 ^ 1074 = of_int (9007199254740993 * 2 ^ 1074)"
    by simp
  have "floorlog 2 (9007199254740993 * 2 ^ 1074) = floorlog 2 9007199254740993 + 1074"
    by (rule floorlog_power) simp_all
  moreover have "floorlog 2 9007199254740993 = 54"
  proof (rule antisym)
    show "floorlog 2 9007199254740993 \<le> 54" by (simp add: floorlog_le_iff)
    show "54 \<le> floorlog 2 9007199254740993" by (rule floorlog_geI) simp_all
  qed
  ultimately have s: "floorlog 2 (9007199254740993 * 2 ^ 1074) - 53 = 1075"
    by simp
  have q: "real_of_int (9007199254740993 * 2 ^ 1074) / 2 ^ 1075 = 4503599627370496 + 1 / 2"
    by simp
  have r: "round_half_even (4503599627370496 + 1 / 2) = 4503599627370496"
    by (simp add: round_half_even_def Let_def)
  have n: "nat (9007199254740993 * 2 ^ 1074) = 9007199254740993 * 2 ^ 1074"
    by (simp add: nat_mult_distrib nat_power_eq)
  have "nearest 9007199254740993 = sgn (9007199254740993::real) * (of_int 4503599627370496 * 2 ^ 1075 / 2 ^ 1074)"
    unfolding nearest_def round_to_def Let_def k floor_of_int n s q r ..
  also have "\<dots> = 9007199254740992" by simp
  finally show ?thesis by (simp add: round_int_def)
qed

lemma round_double_numeral:
  "numeral w \<le> (9007199254740992::int) \<Longrightarrow> round_double (numeral w) = Finite (numeral w)"
  using round_double_of_int [of "numeral w"] by simp

lemma round_double_0: "round_double 0 = Finite 0"
  using round_double_of_int [of 0] by simp

lemma round_double_1: "round_double 1 = Finite 1"
  using round_double_of_int [of 1] by simp

lemma round_int_numeral:
  "numeral w \<le> (9007199254740992::int) \<Longrightarrow> round_int (numeral w) = numeral w"
  by (simp add: round_int_small)

lemma round_int_neg_numeral:
  "numeral w \<le> (9007199254740992::int) \<Longrightarrow> round_int (- numeral w) = - numeral w"
  by (simp add: round_int_small)

lemma round_int_0: "round_int 0 = 0"
  by (simp add: round_int_small)

lemma round_int_1: "round_int 1 = 1"
  by (simp add: round_int_small)

lemma round_double_nonnegative: "0 \<le> x \<Longrightarrow> nonnegative (round_double x)"
proof -
  assume "0 \<le> x"
  then have "0 \<le> nearest x" by (rule nearest_nonneg)
  moreover have "- (2 ^ 1024) < (0::real)" by simp
  ultimately have "\<not> nearest x \<le> - (2 ^ 1024)" by linarith
  with \<open>0 \<le> nearest x\<close> show ?thesis
    by (simp add: round_double_def Let_def)
qed

lemma round_double_overflow: "2 ^ 1024 \<le> x \<Longrightarrow> round_double x = PosInf"
  using nearest_overflow [of x] by (simp add: round_double_def Let_def)

lemma round_double_finite:
  assumes "0 \<le> x" and "x < 2 ^ 1023"
  obtains v where "round_double x = Finite v" and "0 \<le> v"
proof -
  from assms have "nearest x \<le> 2 ^ 1023" by (rule nearest_bounded)
  also have "(2::real) ^ 1023 < 2 ^ 1024" by (rule power_strict_increasing) simp_all
  finally have 1: "\<not> 2 ^ 1024 \<le> nearest x" by simp
  from assms(1) have 2: "0 \<le> nearest x" by (rule nearest_nonneg)
  moreover have "- (2 ^ 1024) < (0::real)" by simp
  ultimately have "\<not> nearest x \<le> - (2 ^ 1024)" by linarith
  with 1 have "round_double x = Finite (nearest x)"
    by (simp add: round_double_def Let_def)
  then show ?thesis using 2 by (rule that)
qed

lemma price_limit_nonneg: "0 \<le> price_limit"
  by (simp add: price_limit_def)

lemma trade_value_finite:
  assumes "modest pr" and "0 < n" and "n \<le> quantity_limit"
  obtains v where "trade_value pr n = Finite v" and "0 \<le> v"
proof -
  from assms(1) obtain r where pr: "pr = Finite r" and r: "0 \<le> r" "r \<le> 2 ^ 969"
    by (cases pr) (simp_all add: price_limit_def)
  from assms(2) have n0: "0 \<le> real_of_int n" by simp
  from assms(3) have "n \<le> 2 ^ 53" by (simp only: quantity_limit_def)
  then have "real_of_int n \<le> real_of_int (2 ^ 53)" by (simp only: of_int_le_iff)
  then have n: "real_of_int n \<le> 2 ^ 53" by simp
  from r(2) n r(1) n0 have "r * real_of_int n \<le> 2 ^ 969 * 2 ^ 53"
    by (intro mult_mono) simp_all
  also have "(2::real) ^ 969 * 2 ^ 53 = 2 ^ (969 + 53)" by (simp only: power_add)
  also have "\<dots> < 2 ^ 1023" by (rule power_strict_increasing) simp_all
  finally have less: "r * real_of_int n < 2 ^ 1023" .
  from r(1) n0 have "0 \<le> r * real_of_int n" by simp
  then obtain v where "round_double (r * real_of_int n) = Finite v" and "0 \<le> v"
    using less by (rule round_double_finite)
  then show ?thesis
    by (intro that [of v]) (simp_all add: trade_value_def pr)
qed

lemma nonnegative_add: "nonnegative b \<Longrightarrow> 0 \<le> v \<Longrightarrow> nonnegative (double (js_add b (Finite v)))"
  by (cases b) (simp_all add: round_double_nonnegative)

lemma nonnegative_sub:
  "nonnegative b \<Longrightarrow> \<not> js_gt (Finite v) b \<Longrightarrow> nonnegative (double (js_sub b (Finite v)))"
  by (cases b) (simp_all add: js_gt_def js_sub_def round_double_nonnegative)

section \<open>Lists, holdings and transaction logs\<close>

lemma findIndex_None_iff: "findIndex P xs = None \<longleftrightarrow> (\<forall>x \<in> set xs. \<not> P x)"
  by (induction xs) auto

lemma findIndex_Some_less: "findIndex P xs = Some i \<Longrightarrow> i < length xs \<and> P (xs ! i)"
  by (induction xs arbitrary: i) (auto split: if_splits)

lemma held_quantity_Nil [simp]: "held_quantity [] t = 0"
  by (simp add: held_quantity_def)

lemma held_quantity_Cons [simp]:
  "held_quantity (h # p) t = (if h_ticker h = t then h_quantity h else held_quantity p t)"
  by (cases "findIndex (\<lambda>item. h_ticker item = t) p") (simp_all add: held_quantity_def)

lemma held_quantity_absent: "t \<notin> h_ticker ` set p \<Longrightarrow> held_quantity p t = 0"
  by (induction p) auto

lemma held_quantity_append_new:
  "held_quantity (p @ [\<lparr>h_ticker = t, h_quantity = q\<rparr>]) t' =
     (if t' \<in> h_ticker ` set p then held_quantity p t' else if t' = t then q else 0)"
  by (induction p) auto

lemma buy_at_Cons_0: "buy_at 0 q (h # p) = h\<lparr>h_quantity := round_int (h_quantity h + q)\<rparr> # p"
  by (simp add: buy_at_def)

lemma buy_at_Cons_Suc: "buy_at (Suc i) q (h # p) = h # buy_at i q p"
  by (simp add: buy_at_def)

lemma sell_at_Cons_0:
  "sell_at 0 q (h # p) =
     (if round_int (h_quantity h - q) = 0 then p
      else h\<lparr>h_quantity := round_int (h_quantity h - q)\<rparr> # p)"
  by (simp add: sell_at_def)

lemma sell_at_Cons_Suc: "sell_at (Suc i) q (h # p) = h # sell_at i q p"
  by (simp add: sell_at_def Let_def)

lemma held_buy_at:
  "findIndex (\<lambda>item. h_ticker item = t) p = Some i \<Longrightarrow>
   held_quantity (buy_at i q p) t' =
     (if t' = t then round_int (held_quantity p t + q) else held_quantity p t')"
  by (induction p arbitrary: i) (auto simp: buy_at_Cons_0 buy_at_Cons_Suc split: if_splits)

lemma tickers_buy_at:
  "i < length p \<Longrightarrow> map h_ticker (buy_at i q p) = map h_ticker p"
  by (simp add: buy_at_def map_update list_update_same_conv)

lemma set_buy_at:
  "set (buy_at i q p) \<subseteq> insert ((p ! i)\<lparr>h_quantity := round_int (h_quantity (p ! i) + q)\<rparr>) (set p)"
  unfolding buy_at_def by (rule set_update_subset_insert)

lemma held_sell_at:
  "findIndex (\<lambda>item. h_ticker item = t) p = Some i \<Longrightarrow> distinct (map h_ticker p) \<Longrightarrow>
   held_quantity (sell_at i q p) t' =
     (if t' = t then round_int (held_quantity p t - q) else held_quantity p t')"
  by (induction p arbitrary: i) (auto simp: sell_at_Cons_0 sell_at_Cons_Suc held_quantity_absent split: if_splits)

lemma set_sell_at:
  "set (sell_at i q p) \<subseteq> insert ((p ! i)\<lparr>h_quantity := round_int (h_quantity (p ! i) - q)\<rparr>) (set p)"
proof (cases "round_int (h_quantity (p ! i) - q) = 0")
  case True
  have "set (take i p @ drop (Suc i) p) \<subseteq> set p"
    using set_take_subset [of i p] set_drop_subset [of "Suc i" p] by auto
  with True show ?thesis by (auto simp: sell_at_def)
next
  case False
  then show ?thesis
    unfolding sell_at_def Let_def using set_update_subset_insert [of p i] by simp
qed

lemma tickers_sell_at:
  "i < length p \<Longrightarrow> h_ticker ` set (sell_at i q p) \<subseteq> h_ticker ` set p"
proof (induction p arbitrary: i)
  case Nil
  then show ?case by simp
next
  case (Cons h p)
  show ?case
  proof (cases i)
    case 0
    then show ?thesis by (auto simp: sell_at_Cons_0)
  next
    case (Suc j)
    with Cons.prems have "j < length p" by simp
    from Cons.IH [OF this] Suc show ?thesis
      by (auto simp: sell_at_Cons_Suc)
  qed
qed

lemma distinct_sell_at:
  "i < length p \<Longrightarrow> distinct (map h_ticker p) \<Longrightarrow> distinct (map h_ticker (sell_at i q p))"
proof (induction p arbitrary: i)
  case Nil
  then show ?case by simp
next
  case (Cons h p)
  show ?case
  proof (cases i)
    case 0
    with Cons.prems show ?thesis by (simp add: sell_at_Cons_0)
  next
    case (Suc j)
    with Cons.prems have "j < length p" by simp
    from tickers_sell_at [OF this] Cons Suc show ?thesis
      by (auto simp: sell_at_Cons_Suc)
  qed
qed

lemma positive_sell_at:
  assumes "\<forall>h \<in> set p. 0 < h_quantity h" and "0 \<le> round_int (h_quantity (p ! i) - q)"
  shows "\<forall>h \<in> set (sell_at i q p). 0 < h_quantity h"
proof (cases "round_int (h_quantity (p ! i) - q) = 0")
  case True
  have "set (take i p @ drop (Suc i) p) \<subseteq> set p"
    using set_take_subset [of i p] set_drop_subset [of "Suc i" p] by auto
  with True assms(1) show ?thesis by (auto simp: sell_at_def)
next
  case False
  with assms(2) have "0 < round_int (h_quantity (p ! i) - q)" by simp
  with assms(1) set_sell_at [of i q p] show ?thesis by auto
qed

lemma net_quantity_append:
  "net_quantity (txs @ [tx]) t = net_quantity txs t + signed_quantity t tx"
  by (simp add: net_quantity_def)

lemma signed_quantity_roundtrip [simp]:
  "signed_quantity t (JSON_roundtrip_tx tx) = signed_quantity t tx"
  by (simp add: signed_quantity_def JSON_roundtrip_tx_def split: side.splits)

lemma net_quantity_roundtrip [simp]:
  "net_quantity (map JSON_roundtrip_tx txs) t = net_quantity txs t"
  by (simp add: net_quantity_def comp_def)

lemma held_quantity_found:
  "findIndex (\<lambda>item. h_ticker item = t) p = Some i \<Longrightarrow> held_quantity p t = h_quantity (p ! i)"
  by (simp add: held_quantity_def)

lemma held_quantity_not_found:
  "findIndex (\<lambda>item. h_ticker item = t) p = None \<Longrightarrow> held_quantity p t = 0"
  by (simp add: held_quantity_def)

lemma consistent_roundtrip [simp]: "consistent p (map JSON_roundtrip_tx txs) = consistent p txs"
  by (simp add: consistent_def)

lemma entered_nonneg: "0 \<le> entered qtyStr"
  by (simp add: entered_def split: option.splits)

lemma entered_valid: "prompt_text qtyStr = Some s \<Longrightarrow> parseInt s = Some n \<Longrightarrow> 0 < n \<Longrightarrow> entered qtyStr = n"
  by (simp add: entered_def)

lemma quantity_typed_nonneg: "0 \<le> quantity_typed e"
  by (cases e) (simp_all add: entered_nonneg)

lemma capped_mono: "capped T p \<Longrightarrow> T \<le> T' \<Longrightarrow> capped T' p"
  by (auto simp: capped_def)

lemma held_quantity_within: "capped T p \<Longrightarrow> 0 \<le> T \<Longrightarrow> held_quantity p t \<le> T"
  by (induction p) (auto simp: capped_def)

lemma capped_append_new: "capped T p \<Longrightarrow> 0 \<le> T \<Longrightarrow> 0 \<le> q \<Longrightarrow> capped (T + q) (p @ [\<lparr>h_ticker = t, h_quantity = q\<rparr>])"
  by (auto simp: capped_def)

text \<open>Below the limit the quantities are exact.\<close>

lemma round_int_exact: "0 \<le> n \<Longrightarrow> n \<le> quantity_limit \<Longrightarrow> round_int n = n"
  by (rule round_int_small) (simp add: quantity_limit_def)

lemma capped_buy_at:
  assumes "capped T p" and "i < length p" and "0 \<le> h_quantity (p ! i)" and "0 \<le> q"
    and "T + q \<le> quantity_limit"
  shows "capped (T + q) (buy_at i q p)"
proof -
  from assms(1,2) have "h_quantity (p ! i) \<le> T" by (simp add: capped_def)
  with assms(3-5) have "round_int (h_quantity (p ! i) + q) = h_quantity (p ! i) + q"
    by (intro round_int_exact) simp_all
  with \<open>h_quantity (p ! i) \<le> T\<close> assms(1,4) set_buy_at [of i q p] show ?thesis
    by (fastforce simp: capped_def)
qed

lemma capped_sell_at:
  assumes "capped T p" and "i < length p" and "0 \<le> q" and "q \<le> h_quantity (p ! i)"
    and "T \<le> quantity_limit"
  shows "capped T (sell_at i q p)"
proof -
  from assms(1,2) have "h_quantity (p ! i) \<le> T" by (simp add: capped_def)
  with assms(3-5) have "round_int (h_quantity (p ! i) - q) = h_quantity (p ! i) - q"
    by (intro round_int_exact) simp_all
  with \<open>h_quantity (p ! i) \<le> T\<close> assms(1,3) set_sell_at [of i q p] show ?thesis
    by (fastforce simp: capped_def)
qed

lemma consistent_buy_new:
  assumes "consistent p txs" and "0 < q"
    and "findIndex (\<lambda>item. h_ticker item = t) p = None"
    and "tx_ticker tx = t" and "tx_type tx = BUY" and "tx_quantity tx = q"
  shows "consistent (p @ [\<lparr>h_ticker = t, h_quantity = q\<rparr>]) (txs @ [tx])"
proof -
  from assms(3) have absent: "t \<notin> h_ticker ` set p"
    by (auto simp: findIndex_None_iff)
  from assms(1) have net: "net_quantity txs u = held_quantity p u" for u
    by (simp add: consistent_def)
  have "held_quantity (p @ [\<lparr>h_ticker = t, h_quantity = q\<rparr>]) u = net_quantity (txs @ [tx]) u" for u
    using assms(4-6) absent
    by (auto simp: net held_quantity_append_new net_quantity_append signed_quantity_def
        held_quantity_absent)
  with assms(1,2) absent show ?thesis
    by (auto simp: consistent_def)
qed

lemma consistent_buy_more:
  assumes "consistent p txs" and "0 < q"
    and "findIndex (\<lambda>item. h_ticker item = t) p = Some i"
    and "tx_ticker tx = t" and "tx_type tx = BUY" and "tx_quantity tx = q"
    and "held_quantity p t + q \<le> quantity_limit"
  shows "consistent (buy_at i q p) (txs @ [tx])"
proof -
  from assms(3) have i: "i < length p"
    by (simp add: findIndex_Some_less)
  from assms(1) i have pos: "0 < h_quantity (p ! i)"
    by (simp add: consistent_def)
  note held = held_quantity_found [OF assms(3)]
  from pos assms(2,7) have exact: "round_int (held_quantity p t + q) = held_quantity p t + q"
    unfolding held by (intro round_int_exact) simp_all
  have "held_quantity (buy_at i q p) t' = (if t' = t then held_quantity p t + q else held_quantity p t')"
    for t'
    by (simp only: held_buy_at [OF assms(3)] exact)
  moreover from assms(1) have "held_quantity p u = net_quantity txs u" for u
    by (simp add: consistent_def)
  ultimately have "held_quantity (buy_at i q p) t' = net_quantity (txs @ [tx]) t'" for t'
    using assms(4-6) by (simp add: net_quantity_append signed_quantity_def)
  moreover have "\<forall>h \<in> set (buy_at i q p). 0 < h_quantity h"
  proof
    fix h assume "h \<in> set (buy_at i q p)"
    with set_buy_at [of i q p]
    have "h = (p ! i)\<lparr>h_quantity := round_int (h_quantity (p ! i) + q)\<rparr> \<or> h \<in> set p"
      by auto
    with assms(1,2) pos exact show "0 < h_quantity h"
      unfolding held by (auto simp: consistent_def)
  qed
  ultimately show ?thesis
    using assms(1) i by (simp add: consistent_def tickers_buy_at)
qed

lemma consistent_sell:
  assumes "consistent p txs" and "0 < q"
    and "findIndex (\<lambda>item. h_ticker item = t) p = Some i" and "q \<le> held_quantity p t"
    and "tx_ticker tx = t" and "tx_type tx = SELL" and "tx_quantity tx = q"
    and "held_quantity p t \<le> quantity_limit"
  shows "consistent (sell_at i q p) (txs @ [tx])"
proof -
  from assms(3) have i: "i < length p"
    by (simp add: findIndex_Some_less)
  from assms(1) have d: "distinct (map h_ticker p)" and pos: "\<forall>h \<in> set p. 0 < h_quantity h"
    by (simp_all add: consistent_def)
  note held = held_quantity_found [OF assms(3)]
  from assms(2,4,8) have exact: "round_int (held_quantity p t - q) = held_quantity p t - q"
    by (intro round_int_exact) simp_all
  have "held_quantity (sell_at i q p) t' = (if t' = t then held_quantity p t - q else held_quantity p t')"
    for t'
    by (simp only: held_sell_at [OF assms(3) d] exact)
  moreover from assms(1) have "held_quantity p u = net_quantity txs u" for u
    by (simp add: consistent_def)
  ultimately have "held_quantity (sell_at i q p) t' = net_quantity (txs @ [tx]) t'" for t'
    using assms(5-7) by (simp add: net_quantity_append signed_quantity_def)
  moreover have "\<forall>h \<in> set (sell_at i q p). 0 < h_quantity h"
    using pos exact assms(4) unfolding held by (intro positive_sell_at) simp_all
  moreover have "distinct (map h_ticker (sell_at i q p))"
    using i d by (rule distinct_sell_at)
  ultimately show ?thesis
    by (simp add: consistent_def)
qed

lemma parseable_JSON_parse:
  "parseable c \<Longrightarrow> JSON_parse (or_default c d) = Inr (case c of Some (Text v) \<Rightarrow> v | _ \<Rightarrow> d)"
proof (cases c)
  case None
  then show ?thesis by simp
next
  case (Some x)
  assume "parseable c"
  with Some show ?thesis by (cases x) (simp_all add: parseable_def)
qed

lemma stored_transactions_parseable:
  "parseable (ls_transactions ls) \<Longrightarrow>
   JSON_parse (or_default (ls_transactions ls) []) = Inr (stored_transactions ls)"
  by (simp add: stored_transactions_def parseable_JSON_parse)

lemma store_trade_parseable:
  assumes "parseable (ls_transactions ls)"
  shows "store_trade pred ty n now b p ls =
     (Some (Order_placed ty n (ticker pred)),
      ls\<lparr>ls_portfolio := Some (Text p), ls_balance := Some (Text b),
         ls_transactions := Some (Text (map JSON_roundtrip_tx (stored_transactions ls @
          [\<lparr>tx_ticker = ticker pred, tx_type = ty, tx_quantity = n,
            tx_price = Some (current_price pred), tx_timestamp = now\<rparr>])))\<rparr>)"
  using stored_transactions_parseable [OF assms]
  by (simp add: store_trade_def Let_def)

lemma handleTrade_invalid:
  assumes "prompt_text qtyStr = Some s" and "parseInt s = None \<or> (\<exists>n. parseInt s = Some n \<and> n \<le> 0)"
  shows "handleTrade (Some pred) ty qtyStr now ls = (Some Invalid_quantity, ls)"
  using assms by (auto simp: handleTrade_def)

lemma handleTrade_valid:
  assumes "prompt_text qtyStr = Some s" and "parseInt s = Some n" and "0 < n"
  shows "handleTrade (Some pred) ty qtyStr now ls =
     (case ty of
        SELL \<Rightarrow>
          if n > held_quantity (stored_portfolio ls) (ticker pred)
          then (Some (Cannot_sell_more_than_you_own (held_quantity (stored_portfolio ls) (ticker pred))), ls)
          else store_trade pred SELL n now
                 (double (js_add (stored_balance ls) (trade_value (current_price pred) n)))
                 (case findIndex (\<lambda>item. h_ticker item = ticker pred) (stored_portfolio ls) of
                    None \<Rightarrow> stored_portfolio ls | Some i \<Rightarrow> sell_at i n (stored_portfolio ls)) ls
      | BUY \<Rightarrow>
          if js_gt (trade_value (current_price pred) n) (stored_balance ls)
          then (Some (Insufficient_balance (stored_balance ls)
                  (trade_value (current_price pred) n)), ls)
          else store_trade pred BUY n now
                 (double (js_sub (stored_balance ls) (trade_value (current_price pred) n)))
                 (case findIndex (\<lambda>item. h_ticker item = ticker pred) (stored_portfolio ls) of
                    None \<Rightarrow> stored_portfolio ls @ [\<lparr>h_ticker = ticker pred, h_quantity = n\<rparr>]
                  | Some i \<Rightarrow> buy_at i n (stored_portfolio ls)) ls)"
  unfolding handleTrade_def Let_def stored_balance_def stored_portfolio_def held_quantity_def
    trade_value_def
  using assms by (simp split: side.splits)

lemma handlePortfolioTrade_invalid:
  assumes "prompt_text qtyStr = Some s" and "parseInt s = None \<or> (\<exists>n. parseInt s = Some n \<and> n \<le> 0)"
  shows "handlePortfolioTrade tkr ty qtyStr now st ls = Inr (Some Invalid_quantity, st, ls)"
  using assms by (auto simp: handlePortfolioTrade_def)

lemma handlePortfolioTrade_no_price:
  assumes "prompt_text qtyStr = Some s" and "parseInt s = Some n" and "0 < n"
    and "last_price (transactions st) tkr = None \<or> last_price (transactions st) tkr = Some NaN
         \<or> last_price (transactions st) tkr = Some (Finite 0)"
  shows "handlePortfolioTrade tkr ty qtyStr now st ls = Inr (Some No_price_info, st, ls)"
  using assms unfolding handlePortfolioTrade_def last_price_def
  by auto

lemma handlePortfolioTrade_valid:
  assumes "prompt_text qtyStr = Some s" and "parseInt s = Some n" and "0 < n"
    and "last_price (transactions st) tkr = Some price" and "price \<noteq> NaN" and "price \<noteq> Finite 0"
  shows "handlePortfolioTrade tkr ty qtyStr now st ls =
     (case ty of
        SELL \<Rightarrow>
          if n > held_quantity (portfolio st) tkr
          then Inr (Some (Cannot_sell_more_than_you_own (held_quantity (portfolio st) tkr)), st, ls)
          else (case findIndex (\<lambda>item. h_ticker item = tkr) (portfolio st) of
                  None \<Rightarrow> Inl TypeError
                | Some i \<Rightarrow>
                    Inr (Some (Order_placed SELL n tkr),
                         updateAll (double (js_add (balance st) (trade_value price n)))
                           (sell_at i n (portfolio st))
                           (transactions st @ [\<lparr>tx_ticker = tkr, tx_type = SELL, tx_quantity = n,
                              tx_price = Some price, tx_timestamp = now\<rparr>]) ls))
      | BUY \<Rightarrow>
          if js_gt (trade_value price n) (balance st)
          then Inr (Some (Insufficient_balance (balance st) (trade_value price n)), st, ls)
          else Inr (Some (Order_placed BUY n tkr),
                    updateAll (double (js_sub (balance st) (trade_value price n)))
                      (case findIndex (\<lambda>item. h_ticker item = tkr) (portfolio st) of
                         None \<Rightarrow> portfolio st @ [\<lparr>h_ticker = tkr, h_quantity = n\<rparr>]
                       | Some i \<Rightarrow> buy_at i n (portfolio st))
                      (transactions st @ [\<lparr>tx_ticker = tkr, tx_type = BUY, tx_quantity = n,
                         tx_price = Some price, tx_timestamp = now\<rparr>]) ls))"
  unfolding handlePortfolioTrade_def Let_def held_quantity_def trade_value_def
  using assms unfolding last_price_def
  by (simp split: side.splits option.splits prod.splits)

lemma priced_append: "priced (txs @ [tx]) = (priced txs \<and> (case tx_price tx of None \<Rightarrow> False | Some pr \<Rightarrow> modest pr))"
  by (auto simp: priced_def)

lemma priced_roundtrip: "priced txs \<Longrightarrow> priced (map JSON_roundtrip_tx txs)"
  unfolding priced_def
proof
  fix tx' assume all: "\<forall>tx \<in> set txs. case tx_price tx of None \<Rightarrow> False | Some pr \<Rightarrow> modest pr"
    and "tx' \<in> set (map JSON_roundtrip_tx txs)"
  then obtain tx where tx: "tx \<in> set txs" and eq: "tx' = JSON_roundtrip_tx tx" by auto
  from all tx obtain pr where "tx_price tx = Some pr" and "modest pr"
    by (auto split: option.splits)
  then show "case tx_price tx' of None \<Rightarrow> False | Some pr \<Rightarrow> modest pr"
    by (cases pr) (simp_all add: eq JSON_roundtrip_tx_def JSON_number_def)
qed

lemma last_price_cases:
  obtains "last_price txs t = Some (Finite 0)"
  | tx where "tx \<in> set txs" and "last_price txs t = tx_price tx"
proof (cases "find (\<lambda>tx. tx_ticker tx = t) (rev txs)")
  case None
  then have "last_price txs t = Some (Finite 0)" by (simp add: last_price_def)
  then show ?thesis by (rule that(1))
next
  case (Some tx)
  then obtain i where "i < length (rev txs)" and "tx = rev txs ! i"
    unfolding find_Some_iff by blast
  then have "tx \<in> set (rev txs)"
    by (simp only: nth_mem)
  then have "tx \<in> set txs"
    by simp
  moreover from Some have "last_price txs t = tx_price tx" by (simp add: last_price_def)
  ultimately show ?thesis by (rule that(2))
qed

lemma priced_last_price:
  assumes "priced txs" and "last_price txs t = Some price"
  shows "modest price"
proof (cases txs t rule: last_price_cases)
  case 1
  with assms(2) have "price = Finite 0" by simp
  then show ?thesis by (simp add: price_limit_nonneg)
next
  case (2 tx)
  with assms show ?thesis
    by (auto simp: priced_def split: option.splits)
qed

lemma json_stable_roundtrip: "json_stable (map JSON_roundtrip_tx txs)"
proof -
  have "JSON_roundtrip_tx (JSON_roundtrip_tx tx) = JSON_roundtrip_tx tx" for tx
    by (cases "tx_price tx"; cases "the (tx_price tx)")
       (simp_all add: JSON_roundtrip_tx_def JSON_number_def)
  then show ?thesis by (simp add: json_stable_def)
qed

lemma json_stable_map: "json_stable txs \<Longrightarrow> map JSON_roundtrip_tx txs = txs"
  by (simp add: json_stable_def map_idI)

lemma json_stable_last_price:
  assumes "json_stable txs" and "last_price txs t = Some price"
  shows "JSON_number price = Some price"
proof (cases txs t rule: last_price_cases)
  case 1
  with assms(2) have "price = Finite 0" by simp
  then show ?thesis by (simp add: JSON_number_def)
next
  case (2 tx)
  with assms have "JSON_roundtrip_tx tx = tx" and "tx_price tx = Some price"
    by (simp_all add: json_stable_def)
  then have "tx_price (JSON_roundtrip_tx tx) = Some price" by simp
  with \<open>tx_price tx = Some price\<close> show ?thesis
    by (simp add: JSON_roundtrip_tx_def)
qed

lemma json_stable_append:
  "json_stable txs \<Longrightarrow> JSON_number price = Some price \<Longrightarrow>
   json_stable (txs @ [\<lparr>tx_ticker = t, tx_type = ty, tx_quantity = n, tx_price = Some price,
     tx_timestamp = now\<rparr>])"
  by (simp add: json_stable_def JSON_roundtrip_tx_def)

section \<open>What the handlers compute\<close>

lemma store_trade_result:
  assumes "parseable (ls_transactions ls)" and "store_trade pred ty n now b p ls = (a, ls')"
  shows "a = Some (Order_placed ty n (ticker pred))"
    and "stored_balance ls' = b"
    and "stored_portfolio ls' = p"
    and "stored_transactions ls' = map JSON_roundtrip_tx (stored_transactions ls @
          [\<lparr>tx_ticker = ticker pred, tx_type = ty, tx_quantity = n,
            tx_price = Some (current_price pred), tx_timestamp = now\<rparr>])"
    and "parseable (ls_transactions ls')"
proof -
  from assms(2) have a: "a = Some (Order_placed ty n (ticker pred))"
    and ls': "ls' = ls\<lparr>ls_portfolio := Some (Text p), ls_balance := Some (Text b),
         ls_transactions := Some (Text (map JSON_roundtrip_tx (stored_transactions ls @
          [\<lparr>tx_ticker = ticker pred, tx_type = ty, tx_quantity = n,
            tx_price = Some (current_price pred), tx_timestamp = now\<rparr>])))\<rparr>"
    by (simp_all only: store_trade_parseable [OF assms(1)] prod.inject)
  show "a = Some (Order_placed ty n (ticker pred))" by (rule a)
  show "stored_balance ls' = b" by (simp add: ls' stored_balance_def)
  show "stored_portfolio ls' = p" by (simp add: ls' stored_portfolio_def)
  show "stored_transactions ls' = map JSON_roundtrip_tx (stored_transactions ls @
          [\<lparr>tx_ticker = ticker pred, tx_type = ty, tx_quantity = n,
            tx_price = Some (current_price pred), tx_timestamp = now\<rparr>])"
    by (simp add: ls' stored_transactions_def [of "_\<lparr>ls_transactions := _\<rparr>"] del: map_append)
  show "parseable (ls_transactions ls')" by (simp add: ls' parseable_def)
qed

lemma handleTrade_cases [consumes 1, case_names unchanged buy sell]:
  assumes res: "handleTrade prediction ty qtyStr now ls = (a, ls')"
  obtains "ls' = ls" and "\<not> placed a"
  | pred n where "prediction = Some pred" and "ty = BUY" and "0 < n" and "entered qtyStr = n"
      and "\<not> js_gt (trade_value (current_price pred) n) (stored_balance ls)"
      and "store_trade pred BUY n now
             (double (js_sub (stored_balance ls) (trade_value (current_price pred) n)))
             (case findIndex (\<lambda>item. h_ticker item = ticker pred) (stored_portfolio ls) of
                None \<Rightarrow> stored_portfolio ls @ [\<lparr>h_ticker = ticker pred, h_quantity = n\<rparr>]
              | Some i \<Rightarrow> buy_at i n (stored_portfolio ls)) ls = (a, ls')"
  | pred n i where "prediction = Some pred" and "ty = SELL" and "0 < n" and "entered qtyStr = n"
      and "findIndex (\<lambda>item. h_ticker item = ticker pred) (stored_portfolio ls) = Some i"
      and "n \<le> held_quantity (stored_portfolio ls) (ticker pred)"
      and "store_trade pred SELL n now
             (double (js_add (stored_balance ls) (trade_value (current_price pred) n)))
             (sell_at i n (stored_portfolio ls)) ls = (a, ls')"
proof (cases prediction)
  case None
  with res have "ls' = ls" "\<not> placed a" by (auto simp: handleTrade_def)
  then show ?thesis by (rule that(1))
next
  case pred: (Some pred)
  show ?thesis
  proof (cases "prompt_text qtyStr")
    case None
    with res pred have "ls' = ls" "\<not> placed a" by (auto simp: handleTrade_def)
    then show ?thesis by (rule that(1))
  next
    case s: (Some s)
    show ?thesis
    proof (cases "\<exists>n. parseInt s = Some n \<and> 0 < n")
      case False
      then have "parseInt s = None \<or> (\<exists>n. parseInt s = Some n \<and> n \<le> 0)"
        by (cases "parseInt s") auto
      from handleTrade_invalid [OF s this, of pred ty now ls] res pred
      have "ls' = ls" "\<not> placed a" by auto
      then show ?thesis by (rule that(1))
    next
      case True
      then obtain n where n: "parseInt s = Some n" "0 < n" by blast
      note e = entered_valid [OF s n]
      let ?p = "stored_portfolio ls" and ?t = "ticker pred"
      let ?total = "trade_value (current_price pred) n"
      have unfold: "(a, ls') = (case ty of
        SELL \<Rightarrow>
          if n > held_quantity ?p ?t
          then (Some (Cannot_sell_more_than_you_own (held_quantity ?p ?t)), ls)
          else store_trade pred SELL n now (double (js_add (stored_balance ls) ?total))
                 (case findIndex (\<lambda>item. h_ticker item = ?t) ?p of
                    None \<Rightarrow> ?p | Some i \<Rightarrow> sell_at i n ?p) ls
      | BUY \<Rightarrow>
          if js_gt ?total (stored_balance ls)
          then (Some (Insufficient_balance (stored_balance ls) ?total), ls)
          else store_trade pred BUY n now (double (js_sub (stored_balance ls) ?total))
                 (case findIndex (\<lambda>item. h_ticker item = ?t) ?p of
                    None \<Rightarrow> ?p @ [\<lparr>h_ticker = ?t, h_quantity = n\<rparr>]
                  | Some i \<Rightarrow> buy_at i n ?p) ls)"
        using handleTrade_valid [OF s n, of pred ty now ls] res pred by simp
      show ?thesis
      proof (cases ty)
        case BUY
        show ?thesis
        proof (cases "js_gt ?total (stored_balance ls)")
          case True
          with unfold BUY have "ls' = ls" "\<not> placed a" by simp_all
          then show ?thesis by (rule that(1))
        next
          case False
          with unfold BUY show ?thesis
            by (intro that(2) [OF pred BUY n(2) e False]) simp
        qed
      next
        case SELL
        show ?thesis
        proof (cases "n > held_quantity ?p ?t")
          case True
          with unfold SELL have "ls' = ls" "\<not> placed a" by simp_all
          then show ?thesis by (rule that(1))
        next
          case False
          with n(2) obtain i where i: "findIndex (\<lambda>item. h_ticker item = ?t) ?p = Some i"
            by (cases "findIndex (\<lambda>item. h_ticker item = ?t) ?p")
               (auto simp: held_quantity_not_found)
          from False have le: "n \<le> held_quantity ?p ?t" by simp
          from unfold SELL False i show ?thesis
            by (intro that(3) [OF pred SELL n(2) e i le]) simp
        qed
      qed
    qed
  qed
qed

lemma handlePortfolioTrade_cases [case_names unchanged buy sell]:
  obtains a where "handlePortfolioTrade tkr ty qtyStr now st ls = Inr (a, st, ls)" and "\<not> placed a"
  | n price where "ty = BUY" and "0 < n" and "entered qtyStr = n"
      and "last_price (transactions st) tkr = Some price" and "price \<noteq> NaN" and "price \<noteq> Finite 0"
      and "\<not> js_gt (trade_value price n) (balance st)"
      and "handlePortfolioTrade tkr ty qtyStr now st ls =
             Inr (Some (Order_placed BUY n tkr),
                  updateAll (double (js_sub (balance st) (trade_value price n)))
                    (case findIndex (\<lambda>item. h_ticker item = tkr) (portfolio st) of
                       None \<Rightarrow> portfolio st @ [\<lparr>h_ticker = tkr, h_quantity = n\<rparr>]
                     | Some i \<Rightarrow> buy_at i n (portfolio st))
                    (transactions st @ [\<lparr>tx_ticker = tkr, tx_type = BUY, tx_quantity = n,
                       tx_price = Some price, tx_timestamp = now\<rparr>]) ls)"
  | n price i where "ty = SELL" and "0 < n" and "entered qtyStr = n"
      and "last_price (transactions st) tkr = Some price" and "price \<noteq> NaN" and "price \<noteq> Finite 0"
      and "findIndex (\<lambda>item. h_ticker item = tkr) (portfolio st) = Some i"
      and "n \<le> held_quantity (portfolio st) tkr"
      and "handlePortfolioTrade tkr ty qtyStr now st ls =
             Inr (Some (Order_placed SELL n tkr),
                  updateAll (double (js_add (balance st) (trade_value price n)))
                    (sell_at i n (portfolio st))
                    (transactions st @ [\<lparr>tx_ticker = tkr, tx_type = SELL, tx_quantity = n,
                       tx_price = Some price, tx_timestamp = now\<rparr>]) ls)"
proof (cases "prompt_text qtyStr")
  case None
  then have "handlePortfolioTrade tkr ty qtyStr now st ls = Inr (None, st, ls)"
    by (simp add: handlePortfolioTrade_def)
  then show ?thesis by (rule that(1)) simp
next
  case s: (Some s)
  show ?thesis
  proof (cases "\<exists>n. parseInt s = Some n \<and> 0 < n")
    case False
    then have "parseInt s = None \<or> (\<exists>n. parseInt s = Some n \<and> n \<le> 0)"
      by (cases "parseInt s") auto
    from handlePortfolioTrade_invalid [OF s this] show ?thesis by (rule that(1)) simp
  next
    case True
    then obtain n where n: "parseInt s = Some n" "0 < n" by blast
    note e = entered_valid [OF s n]
    show ?thesis
    proof (cases "\<exists>price. last_price (transactions st) tkr = Some price \<and> price \<noteq> NaN \<and> price \<noteq> Finite 0")
      case False
      then have "last_price (transactions st) tkr = None \<or> last_price (transactions st) tkr = Some NaN
         \<or> last_price (transactions st) tkr = Some (Finite 0)"
        by (cases "last_price (transactions st) tkr") auto
      from handlePortfolioTrade_no_price [OF s n this] show ?thesis by (rule that(1)) simp
    next
      case True
      then obtain price where price: "last_price (transactions st) tkr = Some price"
         "price \<noteq> NaN" "price \<noteq> Finite 0" by blast
      note unfold = handlePortfolioTrade_valid [OF s n price, of ty now ls]
      show ?thesis
      proof (cases ty)
        case BUY
        show ?thesis
        proof (cases "js_gt (trade_value price n) (balance st)")
          case True
          with unfold BUY have "handlePortfolioTrade tkr ty qtyStr now st ls =
              Inr (Some (Insufficient_balance (balance st) (trade_value price n)), st, ls)"
            by simp
          then show ?thesis by (rule that(1)) simp
        next
          case False
          with unfold BUY show ?thesis
            by (intro that(2) [OF BUY n(2) e price False]) simp
        qed
      next
        case SELL
        show ?thesis
        proof (cases "n > held_quantity (portfolio st) tkr")
          case True
          with unfold SELL have "handlePortfolioTrade tkr ty qtyStr now st ls =
              Inr (Some (Cannot_sell_more_than_you_own (held_quantity (portfolio st) tkr)), st, ls)"
            by simp
          then show ?thesis by (rule that(1)) simp
        next
          case False
          with n(2) obtain i where i: "findIndex (\<lambda>item. h_ticker item = tkr) (portfolio st) = Some i"
            by (cases "findIndex (\<lambda>item. h_ticker item = tkr) (portfolio st)")
               (auto simp: held_quantity_not_found)
          from False have le: "n \<le> held_quantity (portfolio st) tkr" by simp
          from unfold SELL False i show ?thesis
            by (intro that(3) [OF SELL n(2) e price i le]) simp
        qed
      qed
    qed
  qed
qed

lemma stored_ensure_balance [simp]:
  "stored_portfolio (ensure_balance ls) = stored_portfolio ls"
  "stored_transactions (ensure_balance ls) = stored_transactions ls"
  "stored_balance (ensure_balance ls) = stored_balance ls"
  "ls_transactions (ensure_balance ls) = ls_transactions ls"
  by (simp_all add: ensure_balance_def stored_portfolio_def stored_transactions_def stored_balance_def)

lemma mount_effect_Inr:
  assumes "mount_effect ls = Inr st"
  shows "balance st = stored_balance ls" and "portfolio st = stored_portfolio ls"
    and "transactions st = stored_transactions ls"
  using assms
  by (auto simp: mount_effect_def stored_balance_def stored_portfolio_def stored_transactions_def
      split: sum.splits)

lemma updateAll_result:
  assumes "updateAll b p t ls = (st', ls')"
  shows "balance st' = b" and "portfolio st' = p" and "transactions st' = t"
    and "stored_balance ls' = b" and "stored_portfolio ls' = p"
    and "stored_transactions ls' = map JSON_roundtrip_tx t"
    and "parseable (ls_transactions ls')"
  using assms
  by (auto simp: updateAll_def stored_balance_def stored_portfolio_def stored_transactions_def
      parseable_def)

text \<open>The portfolio and the log a placed purchase or sale leaves, below the limit.\<close>

lemma bought_consistent:
  assumes con: "consistent p txs" and w: "capped T p" and T: "0 \<le> T" and n: "0 < n"
    and lim: "T + n \<le> quantity_limit"
  shows "consistent (case findIndex (\<lambda>item. h_ticker item = t) p of
                       None \<Rightarrow> p @ [\<lparr>h_ticker = t, h_quantity = n\<rparr>] | Some i \<Rightarrow> buy_at i n p)
           (txs @ [\<lparr>tx_ticker = t, tx_type = BUY, tx_quantity = n, tx_price = pr, tx_timestamp = now\<rparr>])"
    and "capped (T + n) (case findIndex (\<lambda>item. h_ticker item = t) p of
                       None \<Rightarrow> p @ [\<lparr>h_ticker = t, h_quantity = n\<rparr>] | Some i \<Rightarrow> buy_at i n p)"
    and "held_quantity (case findIndex (\<lambda>item. h_ticker item = t) p of
                       None \<Rightarrow> p @ [\<lparr>h_ticker = t, h_quantity = n\<rparr>] | Some i \<Rightarrow> buy_at i n p) u
         = held_quantity p u + (if t = u then n else 0)"
proof -
  let ?p' = "case findIndex (\<lambda>item. h_ticker item = t) p of
               None \<Rightarrow> p @ [\<lparr>h_ticker = t, h_quantity = n\<rparr>] | Some i \<Rightarrow> buy_at i n p"
  from w T have "held_quantity p t \<le> T" by (rule held_quantity_within)
  with lim have h: "held_quantity p t + n \<le> quantity_limit" by simp
  show "consistent ?p' (txs @ [\<lparr>tx_ticker = t, tx_type = BUY, tx_quantity = n, tx_price = pr,
      tx_timestamp = now\<rparr>])"
    using con n h
    by (cases "findIndex (\<lambda>item. h_ticker item = t) p")
       (simp_all add: consistent_buy_new consistent_buy_more)
  show "capped (T + n) ?p'"
  proof (cases "findIndex (\<lambda>item. h_ticker item = t) p")
    case None
    with w T n show ?thesis by (simp add: capped_append_new)
  next
    case (Some i)
    then have i: "i < length p" by (simp add: findIndex_Some_less)
    with con have "0 \<le> h_quantity (p ! i)" by (simp add: consistent_def less_imp_le)
    with w i n lim Some show ?thesis by (simp add: capped_buy_at)
  qed
  show "held_quantity ?p' u = held_quantity p u + (if t = u then n else 0)"
  proof (cases "findIndex (\<lambda>item. h_ticker item = t) p")
    case None
    then have "t \<notin> h_ticker ` set p"
      by (auto simp: findIndex_None_iff)
    with None show ?thesis
      by (auto simp: held_quantity_append_new held_quantity_absent)
  next
    case (Some i)
    then have i: "i < length p" by (simp add: findIndex_Some_less)
    with con have "0 \<le> held_quantity p t"
      unfolding held_quantity_found [OF Some] by (simp add: consistent_def less_imp_le)
    with n h have "round_int (held_quantity p t + n) = held_quantity p t + n"
      by (intro round_int_exact) simp_all
    with Some show ?thesis by (auto simp: held_buy_at)
  qed
qed

lemma sold_consistent:
  assumes con: "consistent p txs" and w: "capped T p" and T: "0 \<le> T" and n: "0 < n"
    and lim: "T \<le> quantity_limit"
    and i: "findIndex (\<lambda>item. h_ticker item = t) p = Some i" and le: "n \<le> held_quantity p t"
  shows "consistent (sell_at i n p)
           (txs @ [\<lparr>tx_ticker = t, tx_type = SELL, tx_quantity = n, tx_price = pr, tx_timestamp = now\<rparr>])"
    and "capped T (sell_at i n p)"
    and "held_quantity (sell_at i n p) u = held_quantity p u + (if t = u then - n else 0)"
proof -
  from w T have "held_quantity p t \<le> T" by (rule held_quantity_within)
  with lim have h: "held_quantity p t \<le> quantity_limit" by simp
  from i have il: "i < length p" by (simp add: findIndex_Some_less)
  note held = held_quantity_found [OF i]
  show "consistent (sell_at i n p)
           (txs @ [\<lparr>tx_ticker = t, tx_type = SELL, tx_quantity = n, tx_price = pr, tx_timestamp = now\<rparr>])"
    using con n i le _ _ _ h by (rule consistent_sell) simp_all
  from w il n le lim show "capped T (sell_at i n p)"
    unfolding held by (intro capped_sell_at) simp_all
  from con have d: "distinct (map h_ticker p)" by (simp add: consistent_def)
  from n le h have "round_int (held_quantity p t - n) = held_quantity p t - n"
    by (intro round_int_exact) simp_all
  then show "held_quantity (sell_at i n p) u = held_quantity p u + (if t = u then - n else 0)"
    by (auto simp: held_sell_at [OF i d])
qed

section \<open>Invariants of a session\<close>

lemma consistent_empty: "consistent [] []"
  by (simp add: consistent_def net_quantity_def)

lemma recorded_seed: "recorded 0 seed"
  by (simp add: recorded_def agrees_def seed_def parseable_def json_stable_def capped_def
      stored_portfolio_def stored_transactions_def consistent_empty)

lemma signed_quantity_order:
  "signed_quantity u (JSON_roundtrip_tx \<lparr>tx_ticker = t, tx_type = sd, tx_quantity = n,
       tx_price = p, tx_timestamp = w\<rparr>)
     = (if t = u then (case sd of BUY \<Rightarrow> n | SELL \<Rightarrow> - n) else 0)"
  by (simp add: signed_quantity_def JSON_roundtrip_tx_def split: side.splits)

text \<open>
  A trade through the widget, on a ledger in storage that is consistent and below a bound:
  what it leaves is consistent and below the bound raised by the quantity asked for, and the
  order is recorded.
\<close>

lemma handleTrade_recorded:
  assumes par: "parseable (ls_transactions ls)"
    and st: "json_stable (stored_transactions ls)"
    and con: "consistent (stored_portfolio ls) (stored_transactions ls)"
    and w: "capped T (stored_portfolio ls)" and T: "0 \<le> T"
    and lim: "T + entered qtyStr \<le> quantity_limit"
    and res: "handleTrade prediction ty qtyStr now ls = (a, ls')"
  shows "parseable (ls_transactions ls')" and "json_stable (stored_transactions ls')"
    and "consistent (stored_portfolio ls') (stored_transactions ls')"
    and "capped (T + entered qtyStr) (stored_portfolio ls')"
    and "order_recorded a (stored_portfolio ls, stored_transactions ls)
           (stored_portfolio ls', stored_transactions ls')"
proof -
  have "parseable (ls_transactions ls') \<and> json_stable (stored_transactions ls')
    \<and> consistent (stored_portfolio ls') (stored_transactions ls')
    \<and> capped (T + entered qtyStr) (stored_portfolio ls')
    \<and> order_recorded a (stored_portfolio ls, stored_transactions ls)
           (stored_portfolio ls', stored_transactions ls')"
    using res
  proof (cases rule: handleTrade_cases)
    case unchanged
    from w have "capped (T + entered qtyStr) (stored_portfolio ls)"
      by (rule capped_mono) (simp add: entered_nonneg)
    with unchanged par st con show ?thesis by (simp add: order_recorded_def)
  next
    case (buy pred n)
    let ?p = "stored_portfolio ls" and ?t = "ticker pred"
    let ?tx = "\<lparr>tx_ticker = ticker pred, tx_type = BUY, tx_quantity = n,
                 tx_price = Some (current_price pred), tx_timestamp = now\<rparr>"
    from lim buy(4) have l: "T + n \<le> quantity_limit" by simp
    note b = bought_consistent [OF con w T buy(3) l, of ?t]
    note r = store_trade_result [OF par buy(6)]
    have 1: "consistent (stored_portfolio ls') (stored_transactions ls')"
      unfolding r(3,4) consistent_roundtrip by (rule b(1))
    have 2: "json_stable (stored_transactions ls')"
      unfolding r(4) by (rule json_stable_roundtrip)
    have 3: "capped (T + entered qtyStr) (stored_portfolio ls')"
      unfolding r(3) buy(4) by (rule b(2))
    have log: "stored_transactions ls' = stored_transactions ls @ [JSON_roundtrip_tx ?tx]"
      unfolding r(4) using json_stable_map [OF st] by simp
    have "a = Some (Order_placed (tx_type (JSON_roundtrip_tx ?tx)) (tx_quantity (JSON_roundtrip_tx ?tx))
                  (tx_ticker (JSON_roundtrip_tx ?tx)))"
      unfolding r(1) by (simp add: JSON_roundtrip_tx_def)
    moreover have "held_quantity (stored_portfolio ls') u
        = held_quantity (stored_portfolio ls) u + signed_quantity u (JSON_roundtrip_tx ?tx)" for u
      unfolding r(3) b(3) signed_quantity_order by simp
    ultimately have 4: "order_recorded a (stored_portfolio ls, stored_transactions ls)
           (stored_portfolio ls', stored_transactions ls')"
      unfolding order_recorded_def using log r(1)
      by (intro if_P [THEN iffD2] exI [of _ "JSON_roundtrip_tx ?tx"]) simp_all
    from r(5) 2 1 3 4 show ?thesis by simp
  next
    case (sell pred n i)
    let ?p = "stored_portfolio ls" and ?t = "ticker pred"
    let ?tx = "\<lparr>tx_ticker = ticker pred, tx_type = SELL, tx_quantity = n,
                 tx_price = Some (current_price pred), tx_timestamp = now\<rparr>"
    from lim sell(3,4) T have l: "T \<le> quantity_limit" by simp
    note b = sold_consistent [OF con w T sell(3) l sell(5,6)]
    note r = store_trade_result [OF par sell(7)]
    have 1: "consistent (stored_portfolio ls') (stored_transactions ls')"
      unfolding r(3,4) consistent_roundtrip by (rule b(1))
    have 2: "json_stable (stored_transactions ls')"
      unfolding r(4) by (rule json_stable_roundtrip)
    from b(2) have 3: "capped (T + entered qtyStr) (stored_portfolio ls')"
      unfolding r(3) by (rule capped_mono) (simp add: entered_nonneg)
    have log: "stored_transactions ls' = stored_transactions ls @ [JSON_roundtrip_tx ?tx]"
      unfolding r(4) using json_stable_map [OF st] by simp
    have "a = Some (Order_placed (tx_type (JSON_roundtrip_tx ?tx)) (tx_quantity (JSON_roundtrip_tx ?tx))
                  (tx_ticker (JSON_roundtrip_tx ?tx)))"
      unfolding r(1) by (simp add: JSON_roundtrip_tx_def)
    moreover have "held_quantity (stored_portfolio ls') u
        = held_quantity (stored_portfolio ls) u + signed_quantity u (JSON_roundtrip_tx ?tx)" for u
      unfolding r(3) b(3) signed_quantity_order by simp
    ultimately have 4: "order_recorded a (stored_portfolio ls, stored_transactions ls)
           (stored_portfolio ls', stored_transactions ls')"
      unfolding order_recorded_def using log r(1)
      by (intro if_P [THEN iffD2] exI [of _ "JSON_roundtrip_tx ?tx"]) simp_all
    from r(5) 2 1 3 4 show ?thesis by simp
  qed
  then show "parseable (ls_transactions ls')" and "json_stable (stored_transactions ls')"
    and "consistent (stored_portfolio ls') (stored_transactions ls')"
    and "capped (T + entered qtyStr) (stored_portfolio ls')"
    and "order_recorded a (stored_portfolio ls, stored_transactions ls)
           (stored_portfolio ls', stored_transactions ls')"
    by simp_all
qed

text \<open>
  A trade through the portfolio page, on a copy of the ledger that is consistent and below a
  bound: no exception is raised, the copy it leaves is consistent and below the bound raised
  by the quantity asked for, the order is recorded in the copy, and the copy is written back.
\<close>

lemma handlePortfolioTrade_recorded:
  assumes con: "consistent (portfolio st) (transactions st)"
    and stable: "json_stable (transactions st)"
    and w: "capped T (portfolio st)" and T: "0 \<le> T"
    and lim: "T + entered qtyStr \<le> quantity_limit"
  obtains a st' ls' where "handlePortfolioTrade tkr ty qtyStr now st ls = Inr (a, st', ls')"
    and "consistent (portfolio st') (transactions st')"
    and "json_stable (transactions st')"
    and "capped (T + entered qtyStr) (portfolio st')"
    and "order_recorded a (portfolio st, transactions st) (portfolio st', transactions st')"
    and "written_back a ls st' ls'"
    and "placed a \<longrightarrow> parseable (ls_transactions ls')"
proof (cases tkr ty qtyStr now st ls rule: handlePortfolioTrade_cases)
  case (unchanged a)
  from w have "capped (T + entered qtyStr) (portfolio st)"
    by (rule capped_mono) (simp add: entered_nonneg)
  with unchanged con stable show ?thesis
    by (intro that [of a st ls]) (simp_all add: order_recorded_def written_back_def)
next
  case (buy n price)
  let ?tx = "\<lparr>tx_ticker = tkr, tx_type = BUY, tx_quantity = n,
               tx_price = Some price, tx_timestamp = now\<rparr>"
  let ?b' = "double (js_sub (balance st) (trade_value price n))"
  let ?p' = "case findIndex (\<lambda>item. h_ticker item = tkr) (portfolio st) of
               None \<Rightarrow> portfolio st @ [\<lparr>h_ticker = tkr, h_quantity = n\<rparr>]
             | Some i \<Rightarrow> buy_at i n (portfolio st)"
  obtain st' ls' where u: "updateAll ?b' ?p' (transactions st @ [?tx]) ls = (st', ls')"
    by (cases "updateAll ?b' ?p' (transactions st @ [?tx]) ls")
  note r = updateAll_result [OF u]
  from lim buy(3) have l: "T + n \<le> quantity_limit" by simp
  note b = bought_consistent [OF con w T buy(2) l, of tkr]
  from buy(8) u have eq: "handlePortfolioTrade tkr ty qtyStr now st ls
      = Inr (Some (Order_placed BUY n tkr), st', ls')"
    by simp
  have 1: "consistent (portfolio st') (transactions st')"
    unfolding r(2,3) by (rule b(1))
  have 2: "json_stable (transactions st')"
    unfolding r(3) using stable json_stable_last_price [OF stable buy(4)] by (rule json_stable_append)
  have 3: "capped (T + entered qtyStr) (portfolio st')"
    unfolding r(2) buy(3) by (rule b(2))
  have "held_quantity (portfolio st') v = held_quantity (portfolio st) v + signed_quantity v ?tx" for v
    unfolding r(2) b(3) by (simp add: signed_quantity_def)
  then have 4: "order_recorded (Some (Order_placed BUY n tkr)) (portfolio st, transactions st)
      (portfolio st', transactions st')"
    unfolding order_recorded_def using r(3) by (intro if_P [THEN iffD2] exI [of _ ?tx]) simp_all
  have 5: "written_back (Some (Order_placed BUY n tkr)) ls st' ls'"
    using json_stable_map [OF 2] by (simp add: written_back_def r)
  from r(7) have 6: "placed (Some (Order_placed BUY n tkr)) \<longrightarrow> parseable (ls_transactions ls')" ..
  show ?thesis by (rule that [OF eq 1 2 3 4 5 6])
next
  case (sell n price i)
  let ?tx = "\<lparr>tx_ticker = tkr, tx_type = SELL, tx_quantity = n,
               tx_price = Some price, tx_timestamp = now\<rparr>"
  let ?b' = "double (js_add (balance st) (trade_value price n))"
  let ?p' = "sell_at i n (portfolio st)"
  obtain st' ls' where u: "updateAll ?b' ?p' (transactions st @ [?tx]) ls = (st', ls')"
    by (cases "updateAll ?b' ?p' (transactions st @ [?tx]) ls")
  note r = updateAll_result [OF u]
  from lim sell(2,3) T have l: "T \<le> quantity_limit" by simp
  note b = sold_consistent [OF con w T sell(2) l sell(7,8)]
  from sell(9) u have eq: "handlePortfolioTrade tkr ty qtyStr now st ls
      = Inr (Some (Order_placed SELL n tkr), st', ls')"
    by simp
  have 1: "consistent (portfolio st') (transactions st')"
    unfolding r(2,3) by (rule b(1))
  have 2: "json_stable (transactions st')"
    unfolding r(3) using stable json_stable_last_price [OF stable sell(4)] by (rule json_stable_append)
  from b(2) have 3: "capped (T + entered qtyStr) (portfolio st')"
    unfolding r(2) by (rule capped_mono) (simp add: entered_nonneg)
  have "held_quantity (portfolio st') v = held_quantity (portfolio st) v + signed_quantity v ?tx" for v
    unfolding r(2) b(3) by (simp add: signed_quantity_def)
  then have 4: "order_recorded (Some (Order_placed SELL n tkr)) (portfolio st, transactions st)
      (portfolio st', transactions st')"
    unfolding order_recorded_def using r(3) by (intro if_P [THEN iffD2] exI [of _ ?tx]) simp_all
  have 5: "written_back (Some (Order_placed SELL n tkr)) ls st' ls'"
    using json_stable_map [OF 2] by (simp add: written_back_def r)
  from r(7) have 6: "placed (Some (Order_placed SELL n tkr)) \<longrightarrow> parseable (ls_transactions ls')" ..
  show ?thesis by (rule that [OF eq 1 2 3 4 5 6])
qed

lemma step_recorded:
  assumes rec: "recorded T s" and T: "0 \<le> T" and lim: "T + quantity_typed e \<le> quantity_limit"
  shows "recorded (T + quantity_typed e) (snd (step e s))"
proof (cases e)
  case Widget_mount
  with rec show ?thesis by (simp add: recorded_def agrees_def)
next
  case (Widget_trade prediction ty qtyStr now)
  obtain a ls' where res: "handleTrade prediction ty qtyStr now (storage s) = (a, ls')"
    by (cases "handleTrade prediction ty qtyStr now (storage s)")
  from rec have "parseable (ls_transactions (storage s))"
    and "json_stable (stored_transactions (storage s))"
    and "consistent (stored_portfolio (storage s)) (stored_transactions (storage s))"
    and "capped T (stored_portfolio (storage s))"
    by (simp_all add: recorded_def agrees_def)
  note r = handleTrade_recorded [OF this T lim [unfolded Widget_trade quantity_typed.simps] res]
  from rec have "case demo s of None \<Rightarrow> True
      | Some st \<Rightarrow> json_stable (transactions st) \<and> capped (T + entered qtyStr) (portfolio st)"
    by (auto simp: recorded_def split: option.splits intro: capped_mono simp: entered_nonneg)
  with r(1-4) rec Widget_trade res show ?thesis
    by (simp add: recorded_def agrees_def)
next
  case Demo_mount
  show ?thesis
  proof (cases "mount_effect (storage s)")
    case (Inl e)
    with rec Demo_mount show ?thesis by (simp add: recorded_def agrees_def)
  next
    case (Inr st)
    from mount_effect_Inr(2,3) [OF this] rec Demo_mount Inr show ?thesis
      by (simp add: recorded_def agrees_def)
  qed
next
  case Demo_unmount
  with rec show ?thesis by (simp add: recorded_def agrees_def)
next
  case (Demo_trade tkr ty qtyStr now)
  show ?thesis
  proof (cases "demo s")
    case None
    from rec have "capped (T + entered qtyStr) (stored_portfolio (storage s))"
      by (auto simp: recorded_def intro: capped_mono simp: entered_nonneg)
    with rec Demo_trade None show ?thesis by (simp add: recorded_def agrees_def)
  next
    case (Some st)
    from rec Some have "consistent (portfolio st) (transactions st)"
      and "json_stable (transactions st)" and "capped T (portfolio st)"
      by (simp_all add: recorded_def agrees_def)
    from this T lim [unfolded Demo_trade quantity_typed.simps]
    obtain a st' ls' where eq: "handlePortfolioTrade tkr ty qtyStr now st (storage s) = Inr (a, st', ls')"
      and 1: "consistent (portfolio st') (transactions st')"
      and 2: "json_stable (transactions st')"
      and 3: "capped (T + entered qtyStr) (portfolio st')"
      and 4: "order_recorded a (portfolio st, transactions st) (portfolio st', transactions st')"
      and 5: "written_back a (storage s) st' ls'"
      and 6: "placed a \<longrightarrow> parseable (ls_transactions ls')"
      by (rule handlePortfolioTrade_recorded [where tkr = tkr and ty = ty and now = now and ls = "storage s"])
    from rec have old: "capped (T + entered qtyStr) (stored_portfolio (storage s))"
      by (auto simp: recorded_def intro: capped_mono simp: entered_nonneg)
    show ?thesis
    proof (cases "placed a")
      case True
      with 5 have "stored_portfolio ls' = portfolio st'" "stored_transactions ls' = transactions st'"
        by (simp_all add: written_back_def)
      with 1 2 3 6 True Demo_trade Some eq show ?thesis
        by (simp add: recorded_def agrees_def)
    next
      case False
      with 5 have "ls' = storage s" by (simp add: written_back_def)
      with 1 2 3 old rec Demo_trade Some eq show ?thesis
        by (simp add: recorded_def agrees_def)
    qed
  qed
qed

lemma run_recorded:
  "recorded T s \<Longrightarrow> 0 \<le> T \<Longrightarrow> T + sum_list (map quantity_typed es) \<le> quantity_limit \<Longrightarrow>
   recorded (T + sum_list (map quantity_typed es)) (run es s)"
proof (induction es arbitrary: s T)
  case Nil
  then show ?case by simp
next
  case (Cons e es)
  have rest: "0 \<le> sum_list (map quantity_typed es)"
    by (rule sum_list_nonneg) (auto simp: quantity_typed_nonneg)
  with Cons.prems(3) have "T + quantity_typed e \<le> quantity_limit" by simp
  with Cons.prems(1,2) have "recorded (T + quantity_typed e) (snd (step e s))"
    by (rule step_recorded)
  moreover from Cons.prems(2) have "0 \<le> T + quantity_typed e"
    by (simp add: quantity_typed_nonneg)
  moreover from Cons.prems(3) have "T + quantity_typed e + sum_list (map quantity_typed es) \<le> quantity_limit"
    by simp
  ultimately have "recorded (T + quantity_typed e + sum_list (map quantity_typed es)) (run es (snd (step e s)))"
    by (rule Cons.IH)
  then show ?case by (simp add: add.assoc)
qed

text \<open>The balance, for requests in the range where no value of a trade overflows.\<close>

lemma balance_moved_unchanged: "\<not> placed a \<Longrightarrow> balance_moved a ty b b"
  by (simp add: balance_moved_def)

lemma balance_moved_buy:
  assumes "nonnegative b" and "0 \<le> v" and "\<not> js_gt (Finite v) b"
  shows "balance_moved (Some (Order_placed sd n t)) BUY b (double (js_sub b (Finite v)))"
  using assms nonnegative_sub [OF assms(1,3)] by (auto simp: balance_moved_def)

lemma balance_moved_sell:
  assumes "nonnegative b" and "0 \<le> v"
  shows "balance_moved (Some (Order_placed sd n t)) SELL b (double (js_add b (Finite v)))"
  using assms nonnegative_add [OF assms] by (auto simp: balance_moved_def)

lemma handleTrade_funded:
  assumes par: "parseable (ls_transactions ls)" and pr: "priced (stored_transactions ls)"
    and b: "nonnegative (stored_balance ls)"
    and v: "in_range (Widget_trade prediction ty qtyStr now)"
    and res: "handleTrade prediction ty qtyStr now ls = (a, ls')"
  shows "parseable (ls_transactions ls')" and "priced (stored_transactions ls')"
    and "nonnegative (stored_balance ls')"
    and "balance_moved a ty (stored_balance ls) (stored_balance ls')"
proof -
  have "parseable (ls_transactions ls') \<and> priced (stored_transactions ls')
    \<and> nonnegative (stored_balance ls')
    \<and> balance_moved a ty (stored_balance ls) (stored_balance ls')"
    using res
  proof (cases rule: handleTrade_cases)
    case unchanged
    with par pr b show ?thesis by (simp add: balance_moved_unchanged)
  next
    case (buy pred n)
    with v have m: "modest (current_price pred)" and n: "n \<le> quantity_limit" by simp_all
    from m buy(3) n obtain x where x: "trade_value (current_price pred) n = Finite x" "0 \<le> x"
      by (rule trade_value_finite)
    note r = store_trade_result [OF par buy(6)]
    have "priced (stored_transactions ls @ [\<lparr>tx_ticker = ticker pred, tx_type = BUY, tx_quantity = n,
              tx_price = Some (current_price pred), tx_timestamp = now\<rparr>])"
      using pr m by (simp add: priced_append)
    then have 1: "priced (stored_transactions ls')"
      unfolding r(4) by (rule priced_roundtrip)
    from buy(5) have g: "\<not> js_gt (Finite x) (stored_balance ls)" by (simp add: x)
    from b g have 2: "nonnegative (stored_balance ls')"
      unfolding r(2) x by (rule nonnegative_sub)
    from b x(2) g have 3: "balance_moved a ty (stored_balance ls) (stored_balance ls')"
      unfolding r(1,2) x buy(2) by (rule balance_moved_buy)
    from r(5) 1 2 3 show ?thesis by simp
  next
    case (sell pred n i)
    with v have m: "modest (current_price pred)" and n: "n \<le> quantity_limit" by simp_all
    from m sell(3) n obtain x where x: "trade_value (current_price pred) n = Finite x" "0 \<le> x"
      by (rule trade_value_finite)
    note r = store_trade_result [OF par sell(7)]
    have "priced (stored_transactions ls @ [\<lparr>tx_ticker = ticker pred, tx_type = SELL, tx_quantity = n,
              tx_price = Some (current_price pred), tx_timestamp = now\<rparr>])"
      using pr m by (simp add: priced_append)
    then have 1: "priced (stored_transactions ls')"
      unfolding r(4) by (rule priced_roundtrip)
    from b x(2) have 2: "nonnegative (stored_balance ls')"
      unfolding r(2) x by (rule nonnegative_add)
    from b x(2) have 3: "balance_moved a ty (stored_balance ls) (stored_balance ls')"
      unfolding r(1,2) x sell(2) by (rule balance_moved_sell)
    from r(5) 1 2 3 show ?thesis by simp
  qed
  then show "parseable (ls_transactions ls')" and "priced (stored_transactions ls')"
    and "nonnegative (stored_balance ls')"
    and "balance_moved a ty (stored_balance ls) (stored_balance ls')"
    by simp_all
qed

lemma handlePortfolioTrade_funded:
  assumes own: "priced (transactions st)" "nonnegative (balance st)"
    and lim: "entered qtyStr \<le> quantity_limit"
    and old: "parseable (ls_transactions ls)" "priced (stored_transactions ls)"
      "nonnegative (stored_balance ls)"
  obtains a st' ls' where "handlePortfolioTrade tkr ty qtyStr now st ls = Inr (a, st', ls')"
    and "priced (transactions st')" and "nonnegative (balance st')"
    and "parseable (ls_transactions ls')" and "priced (stored_transactions ls')"
    and "nonnegative (stored_balance ls')"
    and "balance_moved a ty (balance st) (balance st')"
proof (cases tkr ty qtyStr now st ls rule: handlePortfolioTrade_cases)
  case (unchanged a)
  with own old show ?thesis by (intro that [of a st ls]) (simp_all add: balance_moved_unchanged)
next
  case (buy n price)
  let ?b' = "double (js_sub (balance st) (trade_value price n))"
  let ?p' = "case findIndex (\<lambda>item. h_ticker item = tkr) (portfolio st) of
               None \<Rightarrow> portfolio st @ [\<lparr>h_ticker = tkr, h_quantity = n\<rparr>]
             | Some i \<Rightarrow> buy_at i n (portfolio st)"
  let ?t' = "transactions st @ [\<lparr>tx_ticker = tkr, tx_type = BUY, tx_quantity = n,
                       tx_price = Some price, tx_timestamp = now\<rparr>]"
  obtain st' ls' where u: "updateAll ?b' ?p' ?t' ls = (st', ls')"
    by (cases "updateAll ?b' ?p' ?t' ls")
  note r = updateAll_result [OF u]
  from own(1) buy(4) have m: "modest price" by (rule priced_last_price)
  from lim buy(3) have n: "n \<le> quantity_limit" by simp
  from m buy(2) n obtain x where x: "trade_value price n = Finite x" "0 \<le> x"
    by (rule trade_value_finite)
  from buy(7) have g: "\<not> js_gt (Finite x) (balance st)" by (simp add: x)
  from own(2) g have b: "nonnegative ?b'" unfolding x by (rule nonnegative_sub)
  from own(1) m have t: "priced ?t'" by (simp add: priced_append)
  from buy(8) u have eq: "handlePortfolioTrade tkr ty qtyStr now st ls
      = Inr (Some (Order_placed BUY n tkr), st', ls')"
    by simp
  have 1: "priced (transactions st')" unfolding r(3) by (rule t)
  have 2: "nonnegative (balance st')" unfolding r(1) by (rule b)
  have 3: "priced (stored_transactions ls')" unfolding r(6) using t by (rule priced_roundtrip)
  have 4: "nonnegative (stored_balance ls')" unfolding r(4) by (rule b)
  from own(2) x(2) g have 5: "balance_moved (Some (Order_placed BUY n tkr)) ty (balance st) (balance st')"
    unfolding r(1) x buy(1) by (rule balance_moved_buy)
  show ?thesis by (rule that [OF eq 1 2 r(7) 3 4 5])
next
  case (sell n price i)
  let ?b' = "double (js_add (balance st) (trade_value price n))"
  let ?p' = "sell_at i n (portfolio st)"
  let ?t' = "transactions st @ [\<lparr>tx_ticker = tkr, tx_type = SELL, tx_quantity = n,
                       tx_price = Some price, tx_timestamp = now\<rparr>]"
  obtain st' ls' where u: "updateAll ?b' ?p' ?t' ls = (st', ls')"
    by (cases "updateAll ?b' ?p' ?t' ls")
  note r = updateAll_result [OF u]
  from own(1) sell(4) have m: "modest price" by (rule priced_last_price)
  from lim sell(3) have n: "n \<le> quantity_limit" by simp
  from m sell(2) n obtain x where x: "trade_value price n = Finite x" "0 \<le> x"
    by (rule trade_value_finite)
  from own(2) x(2) have b: "nonnegative ?b'" unfolding x by (rule nonnegative_add)
  from own(1) m have t: "priced ?t'" by (simp add: priced_append)
  from sell(9) u have eq: "handlePortfolioTrade tkr ty qtyStr now st ls
      = Inr (Some (Order_placed SELL n tkr), st', ls')"
    by simp
  have 1: "priced (transactions st')" unfolding r(3) by (rule t)
  have 2: "nonnegative (balance st')" unfolding r(1) by (rule b)
  have 3: "priced (stored_transactions ls')" unfolding r(6) using t by (rule priced_roundtrip)
  have 4: "nonnegative (stored_balance ls')" unfolding r(4) by (rule b)
  from own(2) x(2) have 5: "balance_moved (Some (Order_placed SELL n tkr)) ty (balance st) (balance st')"
    unfolding r(1) x sell(1) by (rule balance_moved_sell)
  show ?thesis by (rule that [OF eq 1 2 r(7) 3 4 5])
qed

lemma funded_seed: "funded seed"
  by (simp add: funded_def solvent_def seed_def parseable_def priced_def
      stored_balance_def stored_transactions_def)

lemma step_funded:
  assumes "funded s" and "in_range e"
  shows "funded (snd (step e s))"
proof (cases e)
  case Widget_mount
  with assms show ?thesis by (simp add: funded_def solvent_def)
next
  case (Widget_trade prediction ty qtyStr now)
  obtain a ls' where res: "handleTrade prediction ty qtyStr now (storage s) = (a, ls')"
    by (cases "handleTrade prediction ty qtyStr now (storage s)")
  from assms(1) have "parseable (ls_transactions (storage s))"
    and "priced (stored_transactions (storage s))"
    and "nonnegative (stored_balance (storage s))"
    by (simp_all add: funded_def solvent_def)
  from handleTrade_funded(1-3) [OF this assms(2) [unfolded Widget_trade] res] assms(1) Widget_trade res
  show ?thesis
    by (simp add: funded_def solvent_def)
next
  case Demo_mount
  show ?thesis
  proof (cases "mount_effect (storage s)")
    case (Inl e)
    with assms Demo_mount show ?thesis by (simp add: funded_def solvent_def)
  next
    case (Inr st)
    from mount_effect_Inr(1,3) [OF this] assms Demo_mount Inr show ?thesis
      by (simp add: funded_def solvent_def)
  qed
next
  case Demo_unmount
  with assms show ?thesis by (simp add: funded_def solvent_def)
next
  case (Demo_trade tkr ty qtyStr now)
  show ?thesis
  proof (cases "demo s")
    case None
    with assms Demo_trade show ?thesis by simp
  next
    case (Some st)
    from assms(2) Demo_trade have lim: "entered qtyStr \<le> quantity_limit" by simp
    from assms(1) Some have "priced (transactions st)" and "nonnegative (balance st)"
      and "parseable (ls_transactions (storage s))"
      and "priced (stored_transactions (storage s))"
      and "nonnegative (stored_balance (storage s))"
      by (simp_all add: funded_def solvent_def)
    from this(1,2) lim this(3-5)
    obtain a st' ls' where "handlePortfolioTrade tkr ty qtyStr now st (storage s) = Inr (a, st', ls')"
      and "priced (transactions st')" and "nonnegative (balance st')"
      and "parseable (ls_transactions ls')" and "priced (stored_transactions ls')"
      and "nonnegative (stored_balance ls')"
      by (rule handlePortfolioTrade_funded)
    with Demo_trade Some show ?thesis
      by (simp add: funded_def solvent_def)
  qed
qed

lemma run_funded: "funded s \<Longrightarrow> list_all in_range es \<Longrightarrow> funded (run es s)"
  by (induction es arbitrary: s) (simp_all add: step_funded)

lemma absent_or_default: "absent c \<Longrightarrow> or_default c d = Text d"
  by (cases c rule: absent.cases) simp_all

section \<open>Evaluation on concrete input\<close>

lemma parseInt_10: "parseInt ''10'' = Some 10"
  by (simp add: parseInt_def isWhiteSpace_def isDigit_def digitValue_def round_int_numeral)

lemma parseInt_15: "parseInt ''15'' = Some 15"
  by (simp add: parseInt_def isWhiteSpace_def isDigit_def digitValue_def round_int_numeral)

lemmas evaluate_double =
  round_double_numeral round_double_0 round_double_1 round_double_overflow
  round_int_numeral round_int_neg_numeral round_int_0 round_int_1

lemmas evaluate =
  handleTrade_def handlePortfolioTrade_def store_trade_def updateAll_def mount_effect_def
  ensure_balance_def seed_def scenario_A_def example_prediction_def prompt_text_def
  stored_balance_def stored_portfolio_def stored_transactions_def
  js_gt_def js_sub_def JSON_roundtrip_tx_def JSON_number_def sell_at_def buy_at_def Let_def
  parseInt_10 parseInt_15 evaluate_double

lemmas evaluate2 = evaluate example_session_def last_price_def
  parseInt_def isWhiteSpace_def isDigit_def digitValue_def

section \<open>The requests of a fetch\<close>

lemma predict_unfold:
  "predict tkr simplify net k =
     (let r = Request simplify (if simplify then 5000 else 15000)
      in case attempt tkr (net k) of
           Inr d \<Rightarrow> ([r], Inr d, Suc k)
         | Inl e \<Rightarrow>
             (case attempt tkr (net (Suc k)) of
                Inr d \<Rightarrow> ([r, Wait 4000, r], Inr d, Suc (Suc k))
              | Inl e' \<Rightarrow> ([r, Wait 4000, r, Wait 6000, r], attempt tkr (net (Suc (Suc k))),
                          Suc (Suc (Suc k)))))"
  by (simp add: predict_def numeral_2_eq_2 Let_def split: sum.splits)

lemma predict_exhausted:
  assumes "failed (attempt tkr (net k))" and "failed (attempt tkr (net (Suc k)))"
  shows "predict tkr simplify net k =
     ([Request simplify (if simplify then 5000 else 15000), Wait 4000,
       Request simplify (if simplify then 5000 else 15000), Wait 6000,
       Request simplify (if simplify then 5000 else 15000)],
      attempt tkr (net (Suc (Suc k))), Suc (Suc (Suc k)))"
  using assms by (simp add: predict_unfold failed_def Let_def split: sum.splits)

lemma predict_traces: "fst (predict tkr simplify net k) \<in> set (attempt_traces simplify)"
  by (simp add: predict_unfold attempt_traces_def Let_def split: sum.splits)

lemma predict_first:
  assumes "attempt tkr (net k) = Inr d"
  shows "predict tkr simplify net k = ([Request simplify (if simplify then 5000 else 15000)], Inr d, Suc k)"
  using assms by (simp add: predict_unfold Let_def)

lemmas evaluate_prediction =
  normalize_primary_def normalize_simplified_def normalizedData_def convert_confidence_def
  choose_prices_def predictionData_def example_payload_def both_series_def mismatched_payload_def

section \<open>The claims\<close>

subsection \<open>The ledger\<close>

text \<open>
  Claim C1, as stated: after every call of a trade handler on a valid request, of a positive
  integer quantity at a finite price that is not negative, the cash balance is at least 0. The
  balance is a double, and the value of a trade, price times quantity, can overflow. After 10
  shares are bought at the price 0 and sold at the price \<open>2 ^ 1023\<close> the balance is
  \<open>Infinity\<close>, the value of the sale being beyond the largest double. A purchase of 10 shares
  at that price is then not refused, \<open>Infinity > Infinity\<close> being false, and leaves the
  balance \<open>Infinity - Infinity\<close>, which is NaN: the test \<open>balance >= 0\<close> fails.
\<close>

theorem cash_balance_overflow_counterexample:
  "map valid_price overflow_session = [True, True, True]
   \<and> map quantity_typed overflow_session = [10, 10, 10]
   \<and> stored_balance (storage (run (take 1 overflow_session) seed)) = Finite 1000000
   \<and> stored_balance (storage (run (take 2 overflow_session) seed)) = PosInf
   \<and> fst (step (overflow_session ! 2) (run (take 2 overflow_session) seed))
     = Some (Order_placed BUY 10 ''TCS'')
   \<and> stored_balance (storage (run overflow_session seed)) = NaN
   \<and> \<not> nonnegative (stored_balance (storage (run overflow_session seed)))"
proof -
  have 1: "stored_balance (storage (run (take 1 overflow_session) seed)) = Finite 1000000"
    by (simp add: evaluate overflow_session_def)
  have 2: "storage (run (take 2 overflow_session) seed)
     = \<lparr>ls_balance = Some (Text PosInf), ls_portfolio = Some (Text []),
        ls_transactions = Some (Text
          [\<lparr>tx_ticker = ''TCS'', tx_type = BUY, tx_quantity = 10,
             tx_price = Some (Finite 0), tx_timestamp = ''day 1''\<rparr>,
           \<lparr>tx_ticker = ''TCS'', tx_type = SELL, tx_quantity = 10,
             tx_price = Some (Finite (2 ^ 1023)), tx_timestamp = ''day 2''\<rparr>])\<rparr>"
    by (simp add: evaluate overflow_session_def)
  have r: "run overflow_session seed
      = snd (step (overflow_session ! 2) (run (take 2 overflow_session) seed))"
    by (simp add: overflow_session_def)
  have 3: "step (overflow_session ! 2) (run (take 2 overflow_session) seed)
     = (Some (Order_placed BUY 10 ''TCS''),
        run (take 2 overflow_session) seed
          \<lparr>storage := \<lparr>ls_balance = Some (Text NaN),
             ls_portfolio = Some (Text [\<lparr>h_ticker = ''TCS'', h_quantity = 10\<rparr>]),
             ls_transactions = Some (Text
               [\<lparr>tx_ticker = ''TCS'', tx_type = BUY, tx_quantity = 10,
                  tx_price = Some (Finite 0), tx_timestamp = ''day 1''\<rparr>,
                \<lparr>tx_ticker = ''TCS'', tx_type = SELL, tx_quantity = 10,
                  tx_price = Some (Finite (2 ^ 1023)), tx_timestamp = ''day 2''\<rparr>,
                \<lparr>tx_ticker = ''TCS'', tx_type = BUY, tx_quantity = 10,
                  tx_price = Some (Finite (2 ^ 1023)), tx_timestamp = ''day 3''\<rparr>])\<rparr>\<rparr>)"
    unfolding step.simps 2 overflow_session_def nth_Cons_numeral nth_Cons_Suc nth_Cons_0
    by (simp add: evaluate)
  have 4: "map valid_price overflow_session = [True, True, True]"
    by (simp add: overflow_session_def example_prediction_def)
  have 5: "map quantity_typed overflow_session = [10, 10, 10]"
    by (simp add: overflow_session_def entered_def prompt_text_def parseInt_10)
  from 1 2 3 4 5 show ?thesis
    unfolding r by (simp add: stored_balance_def)
qed

text \<open>
  Claim C1, amended. Start from the seed (empty storage, so a balance of 1,000,000, no holdings
  and no transactions) and apply any sequence of events: trades through the widget, whose
  reference price is finite, not negative and at most \<open>2 ^ 969\<close>, trades through the portfolio
  page, and the two pages mounting and unmounting, every quantity asked for being at most
  \<open>2 ^ 53\<close>, so that the value of no trade overflows. After every event the cash balance passes
  the test \<open>balance >= 0\<close>, in storage and in the state of the portfolio page: it is never
  negative and never NaN; it is \<open>Infinity\<close> once the sales have added up beyond the largest
  double. In any state so reached a further trade in that range, through either handler and
  with the arithmetic of doubles, moves the balance as its side allows: a purchase that is
  placed takes away a value that the balance is not below, a sale that is placed adds a value
  that is not negative, and a refused trade leaves the balance as it is.
\<close>

theorem cash_balance_not_negative:
  assumes "list_all in_range es"
  shows "solvent (run (take n es) seed)
    \<and> (in_range (Widget_trade prediction ty qtyStr now) \<longrightarrow>
        (case handleTrade prediction ty qtyStr now (storage (run (take n es) seed)) of
           (a, ls') \<Rightarrow>
             balance_moved a ty (stored_balance (storage (run (take n es) seed))) (stored_balance ls')))
    \<and> (in_range (Demo_trade tkr ty qtyStr now) \<longrightarrow>
        (case demo (run (take n es) seed) of
           None \<Rightarrow> True
         | Some st \<Rightarrow>
             (case handlePortfolioTrade tkr ty qtyStr now st (storage (run (take n es) seed)) of
                Inl e \<Rightarrow> False
              | Inr (a, st', ls') \<Rightarrow> balance_moved a ty (balance st) (balance st'))))"
proof -
  let ?s = "run (take n es) seed"
  from assms have "list_all in_range (take n es)"
    by (auto simp: list_all_iff dest: in_set_takeD)
  with funded_seed have f: "funded ?s"
    by (rule run_funded)
  then have par: "parseable (ls_transactions (storage ?s))"
    and pr: "priced (stored_transactions (storage ?s))"
    and b: "nonnegative (stored_balance (storage ?s))"
    by (simp_all add: funded_def solvent_def)
  have widget: "case handleTrade prediction ty qtyStr now (storage ?s) of
           (a, ls') \<Rightarrow> balance_moved a ty (stored_balance (storage ?s)) (stored_balance ls')"
    if v: "in_range (Widget_trade prediction ty qtyStr now)"
  proof -
    obtain a ls' where res: "handleTrade prediction ty qtyStr now (storage ?s) = (a, ls')"
      by (cases "handleTrade prediction ty qtyStr now (storage ?s)")
    from handleTrade_funded(4) [OF par pr b v res] res show ?thesis by simp
  qed
  have page: "case demo ?s of
          None \<Rightarrow> True
        | Some st \<Rightarrow>
            (case handlePortfolioTrade tkr ty qtyStr now st (storage ?s) of
               Inl e \<Rightarrow> False
             | Inr (a, st', ls') \<Rightarrow> balance_moved a ty (balance st) (balance st'))"
    if v: "in_range (Demo_trade tkr ty qtyStr now)"
  proof (cases "demo ?s")
    case None
    then show ?thesis by simp
  next
    case (Some st)
    from v have lim: "entered qtyStr \<le> quantity_limit" by simp
    from Some f have "priced (transactions st)" and "nonnegative (balance st)"
      by (simp_all add: funded_def solvent_def)
    from this lim par pr b
    obtain a st' ls' where "handlePortfolioTrade tkr ty qtyStr now st (storage ?s) = Inr (a, st', ls')"
      and "balance_moved a ty (balance st) (balance st')"
      by (rule handlePortfolioTrade_funded)
    with Some show ?thesis by simp
  qed
  from f widget page show ?thesis by (simp add: funded_def)
qed

text \<open>
  The theorem at a session of five events, all in the range: the balance is 975,000 after the
  purchase and 985,000 at the end, and a further purchase of 100 shares at 2,600 is placed and
  takes it to 725,000.
\<close>

theorem cash_balance_not_negative_witness:
  "list_all in_range example_session
   \<and> in_range (Widget_trade (Some (example_prediction ''TCS'' (Finite 2600))) BUY (Some ''100'') ''day 4'')
   \<and> stored_balance (storage (run (take 2 example_session) seed)) = Finite 975000
   \<and> stored_balance (storage (run (take 5 example_session) seed)) = Finite 985000
   \<and> fst (handleTrade (Some (example_prediction ''TCS'' (Finite 2600))) BUY (Some ''100'') ''day 4''
        (storage (run (take 5 example_session) seed))) = Some (Order_placed BUY 100 ''TCS'')
   \<and> stored_balance (snd (handleTrade (Some (example_prediction ''TCS'' (Finite 2600))) BUY
        (Some ''100'') ''day 4'' (storage (run (take 5 example_session) seed)))) = Finite 725000
   \<and> solvent (run (take 2 example_session) seed)
   \<and> solvent (run (take 5 example_session) seed)
   \<and> balance_moved (Some (Order_placed BUY 100 ''TCS'')) BUY (Finite 985000) (Finite 725000)"
proof -
  let ?h = "handleTrade (Some (example_prediction ''TCS'' (Finite 2600))) BUY (Some ''100'') ''day 4''
        (storage (run (take 5 example_session) seed))"
  have e: "entered (Some ''10'') = 10" "entered (Some ''15'') = 15" "entered (Some ''4'') = 4"
    "entered (Some ''100'') = 100"
    by (simp_all add: entered_def prompt_text_def parseInt_def isWhiteSpace_def isDigit_def
        digitValue_def evaluate_double)
  have v: "list_all in_range example_session"
    by (simp add: example_session_def example_prediction_def e price_limit_def quantity_limit_def)
  have w: "in_range (Widget_trade (Some (example_prediction ''TCS'' (Finite 2600))) BUY (Some ''100'') ''day 4'')"
    by (simp add: example_prediction_def e price_limit_def quantity_limit_def)
  have 1: "stored_balance (storage (run (take 2 example_session) seed)) = Finite 975000"
    by (simp add: evaluate2)
  have 2: "stored_balance (storage (run (take 5 example_session) seed)) = Finite 985000"
    by (simp add: evaluate2)
  have 3: "fst ?h = Some (Order_placed BUY 100 ''TCS'')"
    by (simp add: evaluate2)
  have 4: "stored_balance (snd ?h) = Finite 725000"
    by (simp add: evaluate2)
  note t = cash_balance_not_negative [OF v, where n = 5 and ty = BUY and now = "''day 4''"
        and prediction = "Some (example_prediction ''TCS'' (Finite 2600))" and qtyStr = "Some ''100''"]
  from t have "in_range (Widget_trade (Some (example_prediction ''TCS'' (Finite 2600))) BUY
        (Some ''100'') ''day 4'') \<longrightarrow>
      (case ?h of (a, ls') \<Rightarrow>
        balance_moved a BUY (stored_balance (storage (run (take 5 example_session) seed))) (stored_balance ls'))"
    by (rule conjunct2 [THEN conjunct1])
  from this w have "case ?h of (a, ls') \<Rightarrow>
      balance_moved a BUY (stored_balance (storage (run (take 5 example_session) seed))) (stored_balance ls')"
    by (rule mp)
  then have 5: "balance_moved (Some (Order_placed BUY 100 ''TCS'')) BUY (Finite 985000) (Finite 725000)"
    unfolding 2 using 3 4 by (cases ?h) simp
  from t have 6: "solvent (run (take 5 example_session) seed)"
    by (rule conjunct1)
  from cash_balance_not_negative [OF v, of 2] have 7: "solvent (run (take 2 example_session) seed)"
    by (rule conjunct1)
  from v w 1 2 3 4 7 6 5 show ?thesis by (intro conjI)
qed

text \<open>
  Claim C2, as stated: after any sequence of valid trades from the seed the quantity held of
  every ticker equals the net of the BUY quantities minus the SELL quantities of its recorded
  transactions, every accepted trade appending exactly one transaction. A quantity is a double:
  after \<open>2 ^ 53\<close> shares are bought, at the price 0, a purchase of 1 more is placed and recorded
  but leaves the holding at \<open>2 ^ 53\<close>, the sum \<open>2 ^ 53 + 1\<close> not being a double, while the
  net quantity of the log is \<open>2 ^ 53 + 1\<close>. Moreover the portfolio page does not append to
  the log in storage: it writes back its copy, taken when it mounted. When a purchase was made
  through the widget since, in another tab, a sale on the page replaces the stored log of that
  purchase by its own: the record of the purchase is lost.
\<close>

theorem holdings_rounding_counterexample:
  "map quantity_typed large_session = [9007199254740992, 1]
   \<and> fst (step (large_session ! 1) (run (take 1 large_session) seed))
     = Some (Order_placed BUY 1 ''TCS'')
   \<and> held_quantity (stored_portfolio (storage (run large_session seed))) ''TCS'' = 9007199254740992
   \<and> net_quantity (stored_transactions (storage (run large_session seed))) ''TCS'' = 9007199254740993
   \<and> stored_transactions (storage (run (take 3 stale_session) seed))
     = [\<lparr>tx_ticker = ''TCS'', tx_type = BUY, tx_quantity = 10,
          tx_price = Some (Finite 2500), tx_timestamp = ''day 1''\<rparr>,
        \<lparr>tx_ticker = ''TCS'', tx_type = BUY, tx_quantity = 5,
          tx_price = Some (Finite 2500), tx_timestamp = ''day 2''\<rparr>]
   \<and> fst (step (stale_session ! 3) (run (take 3 stale_session) seed))
     = Some (Order_placed SELL 4 ''TCS'')
   \<and> stored_transactions (storage (run stale_session seed))
     = [\<lparr>tx_ticker = ''TCS'', tx_type = BUY, tx_quantity = 10,
          tx_price = Some (Finite 2500), tx_timestamp = ''day 1''\<rparr>,
        \<lparr>tx_ticker = ''TCS'', tx_type = SELL, tx_quantity = 4,
          tx_price = Some (Finite 2500), tx_timestamp = ''day 3''\<rparr>]"
proof -
  have p: "parseInt ''9007199254740992'' = Some 9007199254740992" "parseInt ''1'' = Some 1"
    "parseInt ''5'' = Some 5" "parseInt ''4'' = Some 4"
    by (simp_all add: parseInt_def isWhiteSpace_def isDigit_def digitValue_def evaluate_double)
  have 1: "map quantity_typed large_session = [9007199254740992, 1]"
    by (simp add: large_session_def entered_def prompt_text_def p)
  have s1: "storage (run (take 1 large_session) seed)
     = \<lparr>ls_balance = Some (Text (Finite 1000000)),
        ls_portfolio = Some (Text [\<lparr>h_ticker = ''TCS'', h_quantity = 9007199254740992\<rparr>]),
        ls_transactions = Some (Text
          [\<lparr>tx_ticker = ''TCS'', tx_type = BUY, tx_quantity = 9007199254740992,
             tx_price = Some (Finite 0), tx_timestamp = ''day 1''\<rparr>])\<rparr>"
    by (simp add: evaluate large_session_def p)
  have r: "run large_session seed = snd (step (large_session ! 1) (run (take 1 large_session) seed))"
    by (simp add: large_session_def)
  have 2: "step (large_session ! 1) (run (take 1 large_session) seed)
     = (Some (Order_placed BUY 1 ''TCS''),
        run (take 1 large_session) seed
          \<lparr>storage := \<lparr>ls_balance = Some (Text (Finite 1000000)),
             ls_portfolio = Some (Text [\<lparr>h_ticker = ''TCS'', h_quantity = 9007199254740992\<rparr>]),
             ls_transactions = Some (Text
               [\<lparr>tx_ticker = ''TCS'', tx_type = BUY, tx_quantity = 9007199254740992,
                  tx_price = Some (Finite 0), tx_timestamp = ''day 1''\<rparr>,
                \<lparr>tx_ticker = ''TCS'', tx_type = BUY, tx_quantity = 1,
                  tx_price = Some (Finite 0), tx_timestamp = ''day 2''\<rparr>])\<rparr>\<rparr>)"
    unfolding step.simps s1 large_session_def nth_Cons_Suc nth_Cons_0 One_nat_def
    by (simp add: evaluate p round_int_tie)
  have 3: "held_quantity (stored_portfolio (storage (run large_session seed))) ''TCS'' = 9007199254740992"
    unfolding r 2 by (simp add: stored_portfolio_def)
  have 4: "net_quantity (stored_transactions (storage (run large_session seed))) ''TCS'' = 9007199254740993"
    unfolding r 2 by (simp add: stored_transactions_def net_quantity_def signed_quantity_def)
  have 5: "stored_transactions (storage (run (take 3 stale_session) seed))
     = [\<lparr>tx_ticker = ''TCS'', tx_type = BUY, tx_quantity = 10,
          tx_price = Some (Finite 2500), tx_timestamp = ''day 1''\<rparr>,
        \<lparr>tx_ticker = ''TCS'', tx_type = BUY, tx_quantity = 5,
          tx_price = Some (Finite 2500), tx_timestamp = ''day 2''\<rparr>]"
    by (simp add: evaluate stale_session_def p)
  have 6: "fst (step (stale_session ! 3) (run (take 3 stale_session) seed))
     = Some (Order_placed SELL 4 ''TCS'')"
    by (simp add: evaluate stale_session_def p last_price_def)
  have 7: "stored_transactions (storage (run stale_session seed))
     = [\<lparr>tx_ticker = ''TCS'', tx_type = BUY, tx_quantity = 10,
          tx_price = Some (Finite 2500), tx_timestamp = ''day 1''\<rparr>,
        \<lparr>tx_ticker = ''TCS'', tx_type = SELL, tx_quantity = 4,
          tx_price = Some (Finite 2500), tx_timestamp = ''day 3''\<rparr>]"
    by (simp add: evaluate stale_session_def p last_price_def)
  from 1 2 3 4 5 6 7 show ?thesis by simp
qed

text \<open>
  Claim C2, amended. Apply from the seed any sequence of events in which the quantities asked
  for add up to \<open>2 ^ 53\<close> at most, so that every quantity held is an exact integer. Then for
  every ticker the quantity held in the portfolio equals the net of the BUY quantities minus the
  SELL quantities of the recorded transactions of that ticker, no entry standing for 0: the
  portfolio has one entry for a ticker at most and each quantity is positive. This holds of the
  ledger in storage and of the copy of the portfolio page. In any state so reached a further
  trade within that total does the following. Through the widget, when it is placed it appends
  exactly one transaction, of its ticker, side and quantity, to the log in storage and moves
  the holding by that transaction; when it is not placed it changes neither. Through the
  portfolio page it raises no exception; when it is placed it appends exactly one such
  transaction to the copy of the page, moves the holding of the copy by it, and writes the copy
  back, so that the ledger in storage is that of the page; when it is not placed it changes
  neither the copy nor storage. The log in storage is thus extended by exactly that
  transaction when the copy was in step with storage.
\<close>

theorem holdings_match_transactions_exact:
  assumes "sum_list (map quantity_typed es) + entered qtyStr \<le> quantity_limit"
  shows "agrees (run es seed)
   \<and> (case handleTrade prediction ty qtyStr now (storage (run es seed)) of
         (a, ls') \<Rightarrow>
           order_recorded a
             (stored_portfolio (storage (run es seed)), stored_transactions (storage (run es seed)))
             (stored_portfolio ls', stored_transactions ls'))
   \<and> (case demo (run es seed) of
         None \<Rightarrow> True
       | Some st \<Rightarrow>
           (case handlePortfolioTrade tkr ty qtyStr now st (storage (run es seed)) of
              Inl e \<Rightarrow> False
            | Inr (a, st', ls') \<Rightarrow>
                order_recorded a (portfolio st, transactions st) (portfolio st', transactions st')
                \<and> written_back a (storage (run es seed)) st' ls'
                \<and> (in_step st (storage (run es seed)) \<longrightarrow>
                     order_recorded a
                       (stored_portfolio (storage (run es seed)),
                        stored_transactions (storage (run es seed)))
                       (stored_portfolio ls', stored_transactions ls'))))"
proof -
  let ?s = "run es seed" and ?T = "sum_list (map quantity_typed es)"
  have T: "0 \<le> ?T"
    by (rule sum_list_nonneg) (auto simp: quantity_typed_nonneg)
  from assms have "0 + ?T \<le> quantity_limit"
    using entered_nonneg [of qtyStr] by simp
  with recorded_seed have "recorded (0 + ?T) ?s"
    by (intro run_recorded) simp_all
  then have rec: "recorded ?T ?s" by simp
  then have a: "agrees ?s"
    and par: "parseable (ls_transactions (storage ?s))"
    and st: "json_stable (stored_transactions (storage ?s))"
    and con: "consistent (stored_portfolio (storage ?s)) (stored_transactions (storage ?s))"
    and w: "capped ?T (stored_portfolio (storage ?s))"
    by (simp_all add: recorded_def agrees_def)
  obtain x ls' where res: "handleTrade prediction ty qtyStr now (storage ?s) = (x, ls')"
    by (cases "handleTrade prediction ty qtyStr now (storage ?s)")
  from handleTrade_recorded(5) [OF par st con w T assms res] res
  have widget: "case handleTrade prediction ty qtyStr now (storage ?s) of
         (a, ls') \<Rightarrow>
           order_recorded a (stored_portfolio (storage ?s), stored_transactions (storage ?s))
             (stored_portfolio ls', stored_transactions ls')"
    by simp
  have page: "case demo ?s of
         None \<Rightarrow> True
       | Some st \<Rightarrow>
           (case handlePortfolioTrade tkr ty qtyStr now st (storage ?s) of
              Inl e \<Rightarrow> False
            | Inr (a, st', ls') \<Rightarrow>
                order_recorded a (portfolio st, transactions st) (portfolio st', transactions st')
                \<and> written_back a (storage ?s) st' ls'
                \<and> (in_step st (storage ?s) \<longrightarrow>
                     order_recorded a
                       (stored_portfolio (storage ?s), stored_transactions (storage ?s))
                       (stored_portfolio ls', stored_transactions ls')))"
  proof (cases "demo ?s")
    case None
    then show ?thesis by simp
  next
    case (Some st)
    with rec have "consistent (portfolio st) (transactions st)"
      and "json_stable (transactions st)" and "capped ?T (portfolio st)"
      by (simp_all add: recorded_def agrees_def)
    from this T assms
    obtain y st' ls'' where eq: "handlePortfolioTrade tkr ty qtyStr now st (storage ?s) = Inr (y, st', ls'')"
      and "consistent (portfolio st') (transactions st')"
      and "json_stable (transactions st')"
      and "capped (?T + entered qtyStr) (portfolio st')"
      and o: "order_recorded y (portfolio st, transactions st) (portfolio st', transactions st')"
      and wb: "written_back y (storage ?s) st' ls''"
      and "placed y \<longrightarrow> parseable (ls_transactions ls'')"
      by (rule handlePortfolioTrade_recorded [where tkr = tkr and ty = ty and now = now and ls = "storage ?s"])
    have "order_recorded y (stored_portfolio (storage ?s), stored_transactions (storage ?s))
            (stored_portfolio ls'', stored_transactions ls'')"
      if "in_step st (storage ?s)"
      using that o wb by (cases "placed y") (simp_all add: in_step_def written_back_def order_recorded_def)
    with Some eq o wb show ?thesis by simp
  qed
  from a widget page show ?thesis by simp
qed

text \<open>
  The theorem at the example session, in which 29 shares are asked for, and a further sale of
  6: 6 shares are held and the net of the log is 6, the portfolio page is mounted, its copy in
  step with storage, and the sale is placed through the widget.
\<close>

theorem holdings_match_transactions_exact_witness:
  "sum_list (map quantity_typed example_session) + entered (Some ''6'') = 35
   \<and> (35::int) \<le> quantity_limit
   \<and> held_quantity (stored_portfolio (storage (run example_session seed))) ''TCS'' = 6
   \<and> net_quantity (stored_transactions (storage (run example_session seed))) ''TCS'' = 6
   \<and> (case demo (run example_session seed) of
         None \<Rightarrow> False | Some st \<Rightarrow> in_step st (storage (run example_session seed)))
   \<and> fst (handleTrade (Some (example_prediction ''TCS'' (Finite 2600))) SELL (Some ''6'') ''day 4''
            (storage (run example_session seed))) = Some (Order_placed SELL 6 ''TCS'')
   \<and> agrees (run example_session seed)
   \<and> (case handleTrade (Some (example_prediction ''TCS'' (Finite 2600))) SELL (Some ''6'') ''day 4''
              (storage (run example_session seed)) of
         (a, ls') \<Rightarrow>
           order_recorded a
             (stored_portfolio (storage (run example_session seed)),
              stored_transactions (storage (run example_session seed)))
             (stored_portfolio ls', stored_transactions ls'))"
proof -
  have e: "entered (Some ''10'') = 10" "entered (Some ''15'') = 15" "entered (Some ''4'') = 4"
    "entered (Some ''6'') = 6"
    by (simp_all add: entered_def prompt_text_def parseInt_def isWhiteSpace_def isDigit_def
        digitValue_def evaluate_double)
  have 1: "sum_list (map quantity_typed example_session) + entered (Some ''6'') = 35"
    by (simp add: example_session_def e)
  have 2: "(35::int) \<le> quantity_limit"
    by (simp add: quantity_limit_def)
  from 1 2 have h: "sum_list (map quantity_typed example_session) + entered (Some ''6'') \<le> quantity_limit"
    by simp
  have 3: "held_quantity (stored_portfolio (storage (run example_session seed))) ''TCS'' = 6"
    by (simp add: evaluate2)
  have 4: "net_quantity (stored_transactions (storage (run example_session seed))) ''TCS'' = 6"
    by (simp add: evaluate2 net_quantity_def signed_quantity_def)
  have 5: "case demo (run example_session seed) of
         None \<Rightarrow> False | Some st \<Rightarrow> in_step st (storage (run example_session seed))"
    by (simp add: evaluate2 in_step_def)
  have 6: "fst (handleTrade (Some (example_prediction ''TCS'' (Finite 2600))) SELL (Some ''6'') ''day 4''
            (storage (run example_session seed))) = Some (Order_placed SELL 6 ''TCS'')"
    by (simp add: evaluate2)
  note t = holdings_match_transactions_exact [OF h, where
        prediction = "Some (example_prediction ''TCS'' (Finite 2600))" and ty = SELL
        and now = "''day 4''" and tkr = "''TCS''"]
  from t have 7: "agrees (run example_session seed)"
    by (rule conjunct1)
  from t have 8: "case handleTrade (Some (example_prediction ''TCS'' (Finite 2600))) SELL (Some ''6'') ''day 4''
              (storage (run example_session seed)) of
         (a, ls') \<Rightarrow>
           order_recorded a
             (stored_portfolio (storage (run example_session seed)),
              stored_transactions (storage (run example_session seed)))
             (stored_portfolio ls', stored_transactions ls')"
    by (rule conjunct2 [THEN conjunct1])
  from 1 2 3 4 5 6 7 8 show ?thesis by (intro conjI)
qed

text \<open>
  Claim C3, as stated: a SELL whose quantity exceeds the quantity held is refused as
  InsufficientHoldings, which is the alert \<open>Cannot_sell_more_than_you_own\<close>, as a value and
  with the ledger unchanged. The portfolio page contradicts the reason: it looks up the price
  before it looks at the holdings, so that after 10 shares were bought at the price 0 a sale of
  15 is refused for want of a price, not for want of shares.
\<close>

theorem sell_beyond_holdings_counterexample:
  "demo (run zero_price_session seed)
     = Some \<lparr>balance = Finite 1000000, portfolio = [\<lparr>h_ticker = ''TCS'', h_quantity = 10\<rparr>],
             transactions = [\<lparr>tx_ticker = ''TCS'', tx_type = BUY, tx_quantity = 10,
                tx_price = Some (Finite 0), tx_timestamp = ''day 1''\<rparr>]\<rparr>
   \<and> step (Demo_trade ''TCS'' SELL (Some ''15'') ''day 2'') (run zero_price_session seed)
     = (Some No_price_info, run zero_price_session seed)"
  by (simp add: evaluate2 zero_price_session_def)

text \<open>
  Claim C3, amended. A SELL of a valid quantity that exceeds the quantity held is refused, the
  refusal is a value and not an exception, and storage and state are unchanged. The widget
  gives \<open>Cannot_sell_more_than_you_own\<close> with the quantity held; the portfolio page gives it
  when the last recorded price of the ticker is a number other than NaN and 0, and
  \<open>No_price_info\<close> otherwise.
\<close>

theorem sell_beyond_holdings_rejected:
  assumes "prompt_text qtyStr = Some s" and "parseInt s = Some n" and "0 < n"
    and "held_quantity (stored_portfolio ls) (ticker pred) < n"
    and "held_quantity (portfolio st) tkr < n"
  shows "handleTrade (Some pred) SELL qtyStr now ls
           = (Some (Cannot_sell_more_than_you_own (held_quantity (stored_portfolio ls) (ticker pred))), ls)
         \<and> handlePortfolioTrade tkr SELL qtyStr now st ls
           = Inr (Some (case last_price (transactions st) tkr of
                          None \<Rightarrow> No_price_info
                        | Some price \<Rightarrow>
                            if price = NaN \<or> price = Finite 0 then No_price_info
                            else Cannot_sell_more_than_you_own (held_quantity (portfolio st) tkr)),
                  st, ls)"
proof
  from handleTrade_valid [OF assms(1-3), of pred SELL now ls] assms(4)
  show "handleTrade (Some pred) SELL qtyStr now ls
           = (Some (Cannot_sell_more_than_you_own (held_quantity (stored_portfolio ls) (ticker pred))), ls)"
    by simp
next
  show "handlePortfolioTrade tkr SELL qtyStr now st ls
           = Inr (Some (case last_price (transactions st) tkr of
                          None \<Rightarrow> No_price_info
                        | Some price \<Rightarrow>
                            if price = NaN \<or> price = Finite 0 then No_price_info
                            else Cannot_sell_more_than_you_own (held_quantity (portfolio st) tkr)),
                  st, ls)"
  proof (cases "\<exists>price. last_price (transactions st) tkr = Some price \<and> price \<noteq> NaN \<and> price \<noteq> Finite 0")
    case True
    then obtain price where price: "last_price (transactions st) tkr = Some price"
      "price \<noteq> NaN" "price \<noteq> Finite 0" by blast
    from handlePortfolioTrade_valid [OF assms(1-3) price, of SELL now ls] assms(5) price
    show ?thesis by simp
  next
    case False
    then have no: "last_price (transactions st) tkr = None \<or> last_price (transactions st) tkr = Some NaN
         \<or> last_price (transactions st) tkr = Some (Finite 0)"
      by (cases "last_price (transactions st) tkr") auto
    from handlePortfolioTrade_no_price [OF assms(1-3) no, of SELL now ls] no
    show ?thesis by auto
  qed
qed

text \<open>
  Scenario B of the specification is the witness: with 10 shares held after Scenario A, a sale of
  15 is refused by both handlers and nothing changes.
\<close>

theorem sell_beyond_holdings_rejected_witness:
  "handleTrade (Some (example_prediction ''TCS'' (Finite 2600))) SELL (Some ''15'') ''day 2''
       (scenario_A ''TCS'' ''day 1'')
     = (Some (Cannot_sell_more_than_you_own 10), scenario_A ''TCS'' ''day 1'')
   \<and> handlePortfolioTrade ''TCS'' SELL (Some ''15'') ''day 2''
       \<lparr>balance = Finite 975000, portfolio = [\<lparr>h_ticker = ''TCS'', h_quantity = 10\<rparr>],
        transactions = [\<lparr>tx_ticker = ''TCS'', tx_type = BUY, tx_quantity = 10,
           tx_price = Some (Finite 2500), tx_timestamp = ''day 1''\<rparr>]\<rparr>
       (scenario_A ''TCS'' ''day 1'')
     = Inr (Some (Cannot_sell_more_than_you_own 10),
            \<lparr>balance = Finite 975000, portfolio = [\<lparr>h_ticker = ''TCS'', h_quantity = 10\<rparr>],
             transactions = [\<lparr>tx_ticker = ''TCS'', tx_type = BUY, tx_quantity = 10,
                tx_price = Some (Finite 2500), tx_timestamp = ''day 1''\<rparr>]\<rparr>,
            scenario_A ''TCS'' ''day 1'')
   \<and> mount_effect (scenario_A ''TCS'' ''day 1'')
     = Inr \<lparr>balance = Finite 975000, portfolio = [\<lparr>h_ticker = ''TCS'', h_quantity = 10\<rparr>],
            transactions = [\<lparr>tx_ticker = ''TCS'', tx_type = BUY, tx_quantity = 10,
               tx_price = Some (Finite 2500), tx_timestamp = ''day 1''\<rparr>]\<rparr>"
proof -
  have 1: "prompt_text (Some ''15'') = Some ''15''"
    by (simp add: prompt_text_def)
  have 2: "(0::int) < 15"
    by simp
  have 3: "held_quantity (stored_portfolio (scenario_A ''TCS'' ''day 1''))
             (ticker (example_prediction ''TCS'' (Finite 2600))) < 15"
    by (simp add: evaluate)
  have 4: "held_quantity (portfolio \<lparr>balance = Finite 975000,
        portfolio = [\<lparr>h_ticker = ''TCS'', h_quantity = 10\<rparr>],
        transactions = [\<lparr>tx_ticker = ''TCS'', tx_type = BUY, tx_quantity = 10,
           tx_price = Some (Finite 2500), tx_timestamp = ''day 1''\<rparr>]\<rparr>) ''TCS'' < 15"
    by simp
  have 5: "mount_effect (scenario_A ''TCS'' ''day 1'')
     = Inr \<lparr>balance = Finite 975000, portfolio = [\<lparr>h_ticker = ''TCS'', h_quantity = 10\<rparr>],
            transactions = [\<lparr>tx_ticker = ''TCS'', tx_type = BUY, tx_quantity = 10,
               tx_price = Some (Finite 2500), tx_timestamp = ''day 1''\<rparr>]\<rparr>"
    by (simp add: evaluate)
  from sell_beyond_holdings_rejected [OF 1 parseInt_15 2 3 4, where now = "''day 2''"] 5
  show ?thesis
    by (simp add: evaluate last_price_def)
qed

text \<open>
  Claim C4. From the seed balance of 1,000,000, buying 10 shares at the reference price 2,500
  through the widget leaves the balance 975,000 and the holdings a single entry of quantity 10
  (Scenario A); selling 10 shares at 2,600 then leaves the balance 1,001,000 and no holdings:
  the entry that reaches 0 is removed, not kept at zero (Scenario C). The portfolio page, which
  trades at the last recorded price of the ticker (here 2,500), removes the entry in the same
  way.
\<close>

theorem scenarios_A_and_C:
  "handleTrade (Some (pred\<lparr>current_price := Finite 2500\<rparr>)) BUY (Some ''10'') now (storage seed)
     = (Some (Order_placed BUY 10 (ticker pred)), scenario_A (ticker pred) now)
   \<and> stored_balance (scenario_A (ticker pred) now) = Finite 975000
   \<and> stored_portfolio (scenario_A (ticker pred) now) = [\<lparr>h_ticker = ticker pred, h_quantity = 10\<rparr>]
   \<and> (case handleTrade (Some (pred\<lparr>current_price := Finite 2600\<rparr>)) SELL (Some ''10'') later
              (scenario_A (ticker pred) now) of
         (a, ls) \<Rightarrow> a = Some (Order_placed SELL 10 (ticker pred))
                   \<and> stored_balance ls = Finite 1001000 \<and> ls_portfolio ls = Some (Text []))
   \<and> (case mount_effect (scenario_A t now) of
         Inl e \<Rightarrow> False
       | Inr st \<Rightarrow>
           (case handlePortfolioTrade t SELL (Some ''10'') later st (scenario_A t now) of
              Inl e \<Rightarrow> False
            | Inr (a, st', ls) \<Rightarrow> a = Some (Order_placed SELL 10 t)
                 \<and> balance st' = Finite 1000000 \<and> portfolio st' = []
                 \<and> stored_balance ls = Finite 1000000 \<and> ls_portfolio ls = Some (Text [])))"
  by (simp add: evaluate)

text \<open>
  Claim C5, as stated: a request with a reference price that is infinite or NaN is refused as
  InvalidRequest, the alert \<open>Invalid_quantity\<close>, before any other check and changes nothing.
  The widget does not look at the price: a purchase at an infinite price is refused by the
  funds check, a sale at an infinite price is placed and makes the balance infinite, and a
  purchase at the price NaN is placed and makes the balance NaN.
\<close>

theorem price_not_validated_counterexample:
  "handleTrade (Some (example_prediction ''TCS'' PosInf)) BUY (Some ''1'') ''day 1'' (storage seed)
     = (Some (Insufficient_balance (Finite 1000000) PosInf), storage seed)
   \<and> handleTrade (Some (example_prediction ''TCS'' PosInf)) SELL (Some ''10'') ''day 2''
       (scenario_A ''TCS'' ''day 1'')
     = (Some (Order_placed SELL 10 ''TCS''),
        \<lparr>ls_balance = Some (Text PosInf), ls_portfolio = Some (Text []),
         ls_transactions = Some (Text
           [\<lparr>tx_ticker = ''TCS'', tx_type = BUY, tx_quantity = 10,
              tx_price = Some (Finite 2500), tx_timestamp = ''day 1''\<rparr>,
            \<lparr>tx_ticker = ''TCS'', tx_type = SELL, tx_quantity = 10,
              tx_price = None, tx_timestamp = ''day 2''\<rparr>])\<rparr>)
   \<and> handleTrade (Some (example_prediction ''TCS'' NaN)) BUY (Some ''1'') ''day 1'' (storage seed)
     = (Some (Order_placed BUY 1 ''TCS''),
        \<lparr>ls_balance = Some (Text NaN),
         ls_portfolio = Some (Text [\<lparr>h_ticker = ''TCS'', h_quantity = 1\<rparr>]),
         ls_transactions = Some (Text
           [\<lparr>tx_ticker = ''TCS'', tx_type = BUY, tx_quantity = 1,
              tx_price = None, tx_timestamp = ''day 1''\<rparr>])\<rparr>)"
  by (simp add: evaluate2 inf_times_def)

text \<open>
  Claim C5, amended. A request whose quantity parses to NaN, to 0 or to a negative integer is
  refused with \<open>Invalid_quantity\<close> by both handlers, whatever the side, the price, the
  holdings and the balance are, hence before any other check, and nothing changes. No other
  request is refused with \<open>Invalid_quantity\<close>: the price, be it NaN or infinite, plays no
  part in this check.
\<close>

theorem invalid_quantity_rejected_first:
  assumes "prompt_text qtyStr = Some s"
  shows "((case parseInt s of None \<Rightarrow> True | Some n \<Rightarrow> n \<le> 0) \<longrightarrow>
            handleTrade (Some pred) ty qtyStr now ls = (Some Invalid_quantity, ls)
            \<and> handlePortfolioTrade tkr ty qtyStr now st ls = Inr (Some Invalid_quantity, st, ls))
         \<and> (\<not> (case parseInt s of None \<Rightarrow> True | Some n \<Rightarrow> n \<le> 0) \<longrightarrow>
              fst (handleTrade (Some pred) ty qtyStr now ls) \<noteq> Some Invalid_quantity
              \<and> (case handlePortfolioTrade tkr ty qtyStr now st ls of
                    Inl e \<Rightarrow> True | Inr r \<Rightarrow> fst r \<noteq> Some Invalid_quantity))"
proof (intro conjI impI)
  assume "case parseInt s of None \<Rightarrow> True | Some n \<Rightarrow> n \<le> 0"
  then have i: "parseInt s = None \<or> (\<exists>n. parseInt s = Some n \<and> n \<le> 0)"
    by (cases "parseInt s") auto
  from assms i show "handleTrade (Some pred) ty qtyStr now ls = (Some Invalid_quantity, ls)"
    by (rule handleTrade_invalid)
  from assms i show "handlePortfolioTrade tkr ty qtyStr now st ls = Inr (Some Invalid_quantity, st, ls)"
    by (rule handlePortfolioTrade_invalid)
next
  assume "\<not> (case parseInt s of None \<Rightarrow> True | Some n \<Rightarrow> n \<le> 0)"
  then obtain n where n: "parseInt s = Some n" "0 < n"
    by (cases "parseInt s") auto
  have "fst (store_trade pred ty n now b p ls) \<noteq> Some Invalid_quantity" for b p
    by (simp add: store_trade_def Let_def split: sum.splits)
  then show "fst (handleTrade (Some pred) ty qtyStr now ls) \<noteq> Some Invalid_quantity"
    by (cases ty) (simp_all add: handleTrade_valid [OF assms n])
  show "case handlePortfolioTrade tkr ty qtyStr now st ls of
          Inl e \<Rightarrow> True | Inr r \<Rightarrow> fst r \<noteq> Some Invalid_quantity"
  proof (cases "\<exists>price. last_price (transactions st) tkr = Some price \<and> price \<noteq> NaN \<and> price \<noteq> Finite 0")
    case True
    then obtain price where price: "last_price (transactions st) tkr = Some price"
      "price \<noteq> NaN" "price \<noteq> Finite 0" by blast
    show ?thesis
      by (cases ty) (simp_all add: handlePortfolioTrade_valid [OF assms n price] updateAll_def
          split: option.splits)
  next
    case False
    then have no: "last_price (transactions st) tkr = None \<or> last_price (transactions st) tkr = Some NaN
         \<or> last_price (transactions st) tkr = Some (Finite 0)"
      by (cases "last_price (transactions st) tkr") auto
    show ?thesis
      by (simp add: handlePortfolioTrade_no_price [OF assms n no])
  qed
qed

text \<open>
  The theorem at the quantities -5, 0 and \<open>ten\<close>, each refused without a change, and at the
  quantity 10 with the price NaN, which is not refused as invalid.
\<close>

theorem invalid_quantity_rejected_first_witness:
  "handleTrade (Some (example_prediction ''TCS'' (Finite 2600))) SELL (Some ''-5'') ''day 2''
       (scenario_A ''TCS'' ''day 1'')
     = (Some Invalid_quantity, scenario_A ''TCS'' ''day 1'')
   \<and> handlePortfolioTrade ''TCS'' BUY (Some ''0'') ''day 2'' initial_state (storage seed)
     = Inr (Some Invalid_quantity, initial_state, storage seed)
   \<and> handleTrade (Some (example_prediction ''TCS'' PosInf)) BUY (Some ''ten'') ''day 2'' (storage seed)
     = (Some Invalid_quantity, storage seed)
   \<and> fst (handleTrade (Some (example_prediction ''TCS'' NaN)) BUY (Some ''10'') ''day 2'' (storage seed))
     \<noteq> Some Invalid_quantity"
proof -
  have 1: "prompt_text (Some ''-5'') = Some ''-5''" "prompt_text (Some ''0'') = Some ''0''"
    "prompt_text (Some ''ten'') = Some ''ten''" "prompt_text (Some ''10'') = Some ''10''"
    by (simp_all add: prompt_text_def)
  have 2: "case parseInt ''-5'' of None \<Rightarrow> True | Some n \<Rightarrow> n \<le> 0"
    "case parseInt ''0'' of None \<Rightarrow> True | Some n \<Rightarrow> n \<le> 0"
    "case parseInt ''ten'' of None \<Rightarrow> True | Some n \<Rightarrow> n \<le> 0"
    "\<not> (case parseInt ''10'' of None \<Rightarrow> True | Some n \<Rightarrow> n \<le> 0)"
    by (simp_all add: parseInt_def isWhiteSpace_def isDigit_def digitValue_def evaluate_double)
  from invalid_quantity_rejected_first [OF 1(1)] invalid_quantity_rejected_first [OF 1(2)]
    invalid_quantity_rejected_first [OF 1(3)] invalid_quantity_rejected_first [OF 1(4)] 2
  show ?thesis by simp
qed

subsection \<open>Loading the ledger\<close>

text \<open>
  Claim C9, as stated: loading gives the seed also when a stored record is malformed, never
  fails and never gives a balance that is not a number. The effect that loads the portfolio
  page gives the balance NaN for a balance text that is not a number, and raises a SyntaxError
  for holdings text that is not JSON.
\<close>

theorem load_malformed_counterexample:
  "mount_effect \<lparr>ls_balance = Some Malformed, ls_portfolio = None, ls_transactions = None\<rparr>
     = Inr \<lparr>balance = NaN, portfolio = [], transactions = []\<rparr>
   \<and> mount_effect \<lparr>ls_balance = None, ls_portfolio = Some Malformed, ls_transactions = None\<rparr>
     = Inl SyntaxError"
  by (simp add: mount_effect_def)

text \<open>
  Claim C9, amended. Loading gives the seed when each of the three records is absent or empty.
  A balance text that is not a number is not replaced by the seed: the portfolio page loads NaN
  for it, and a purchase through the widget is then never refused for lack of funds and stores
  the balance NaN. Holdings text that is not JSON is read by the widget as no holdings: its
  alert is the one it gives when the record is absent.
\<close>

theorem load_defaults:
  "(absent b \<and> absent p \<and> absent t \<longrightarrow>
      mount_effect \<lparr>ls_balance = b, ls_portfolio = p, ls_transactions = t\<rparr> = Inr initial_state)
   \<and> (case mount_effect (ls\<lparr>ls_balance := Some Malformed\<rparr>) of
         Inl e \<Rightarrow> True | Inr st \<Rightarrow> balance st = NaN)
   \<and> (prompt_text qtyStr = Some s \<and> parseInt s = Some n \<and> 0 < n \<longrightarrow>
        ls_balance (snd (handleTrade (Some pred) BUY qtyStr now (ls\<lparr>ls_balance := Some Malformed\<rparr>)))
          = Some (Text NaN))
   \<and> fst (handleTrade prediction ty qtyStr now (ls\<lparr>ls_portfolio := Some Malformed\<rparr>))
       = fst (handleTrade prediction ty qtyStr now (ls\<lparr>ls_portfolio := None\<rparr>))"
proof (intro conjI impI)
  assume "absent b \<and> absent p \<and> absent t"
  then show "mount_effect \<lparr>ls_balance = b, ls_portfolio = p, ls_transactions = t\<rparr> = Inr initial_state"
    by (simp add: mount_effect_def initial_state_def absent_or_default)
next
  show "case mount_effect (ls\<lparr>ls_balance := Some Malformed\<rparr>) of
         Inl e \<Rightarrow> True | Inr st \<Rightarrow> balance st = NaN"
    by (simp add: mount_effect_def split: sum.splits)
next
  assume a: "prompt_text qtyStr = Some s \<and> parseInt s = Some n \<and> 0 < n"
  let ?ls = "ls\<lparr>ls_balance := Some Malformed\<rparr>"
  have nan: "stored_balance ?ls = NaN"
    by (simp add: stored_balance_def)
  have "ls_balance (snd (store_trade pred BUY n now NaN p' ?ls)) = Some (Text NaN)" for p'
    by (simp add: store_trade_def Let_def split: sum.splits)
  with a show "ls_balance (snd (handleTrade (Some pred) BUY qtyStr now ?ls)) = Some (Text NaN)"
    by (simp add: handleTrade_valid nan js_gt_def js_sub_def)
next
  show "fst (handleTrade prediction ty qtyStr now (ls\<lparr>ls_portfolio := Some Malformed\<rparr>))
       = fst (handleTrade prediction ty qtyStr now (ls\<lparr>ls_portfolio := None\<rparr>))"
    by (simp add: handleTrade_def store_trade_def Let_def split: option.splits side.splits sum.splits)
qed

theorem load_defaults_witness:
  "absent (Some (Empty_text :: holding list stored))
   \<and> mount_effect \<lparr>ls_balance = None, ls_portfolio = Some Empty_text, ls_transactions = None\<rparr>
     = Inr initial_state
   \<and> prompt_text (Some ''10'') = Some ''10''
   \<and> ls_balance (snd (handleTrade (Some (example_prediction ''TCS'' (Finite 2500))) BUY (Some ''10'')
        ''day 1'' (storage seed\<lparr>ls_balance := Some Malformed\<rparr>))) = Some (Text NaN)
   \<and> fst (handleTrade (Some (example_prediction ''TCS'' (Finite 2500))) SELL (Some ''10'') ''day 2''
        (scenario_A ''TCS'' ''day 1''\<lparr>ls_portfolio := Some Malformed\<rparr>))
     = Some (Cannot_sell_more_than_you_own 0)"
proof -
  have 1: "prompt_text (Some ''10'') = Some ''10''"
    by (simp add: prompt_text_def)
  have 2: "fst (handleTrade (Some (example_prediction ''TCS'' (Finite 2500))) SELL (Some ''10'') ''day 2''
        (scenario_A ''TCS'' ''day 1''\<lparr>ls_portfolio := None\<rparr>))
     = Some (Cannot_sell_more_than_you_own 0)"
    by (simp add: evaluate)
  from load_defaults [where b = None and p = "Some Empty_text" and t = None
      and qtyStr = "Some ''10''" and s = "''10''" and n = 10
      and pred = "example_prediction ''TCS'' (Finite 2500)" and now = "''day 1''"
      and ls = "storage seed"]
    load_defaults [where b = None and p = None and t = None
      and qtyStr = "Some ''10''" and s = "''10''" and n = 10
      and pred = "example_prediction ''TCS'' (Finite 2500)" and now = "''day 2''"
      and ls = "scenario_A ''TCS'' ''day 1''"
      and prediction = "Some (example_prediction ''TCS'' (Finite 2500))" and ty = SELL]
    1 2 parseInt_10
  show ?thesis by simp
qed

subsection \<open>Normalizing a prediction\<close>




text \<open>
  Claim C7: when \<open>prediction_prices\<close> is present but empty and \<open>predicted_prices\<close> is not
  empty, the second is chosen and the payload is not rejected as empty. The code chooses with
  \<open>data.prediction_prices || data.predicted_prices || []\<close>, and an empty array is truthy. The
  evaluation at such a payload: the primary path rejects it for want of prediction points, with
  or without the mapping of \<open>stockApi.predict\<close> before it; the simplified path, whose guard
  passes on the second series, stores a record with an empty series, and after the mapping of
  \<open>stockApi.predict\<close> rejects it.
\<close>

theorem first_series_empty_evaluation:
  "normalize_primary ''TCS'' (Some both_series) = Inl No_prediction_points
   \<and> normalize_primary ''TCS'' (Some (predictionData ''TCS'' both_series)) = Inl No_prediction_points
   \<and> normalize_simplified ''TCS'' (Some both_series)
     = Some \<lparr>ticker = ''TCS'', current_price = Finite 2500,
            prediction_dates = [''2024-01-02'', ''2024-01-03''],
            prediction_prices = [],
            confidence = Finite 82\<rparr>
   \<and> normalize_simplified ''TCS'' (Some (predictionData ''TCS'' both_series)) = None"
  by (simp add: evaluate_prediction)

text \<open>
  Claim C8, as stated: when the dates and the chosen prices differ in length the record has both
  truncated to the shorter length. Nothing is truncated: three dates and two prices give a record
  of three dates and two prices.
\<close>

theorem length_mismatch_counterexample:
  "normalize_primary ''TCS'' (Some mismatched_payload)
     = Inr \<lparr>ticker = ''TCS'', current_price = Finite 2500,
            prediction_dates = [''2024-01-02'', ''2024-01-03'', ''2024-01-04''],
            prediction_prices = [Finite 2510, Finite 2520],
            confidence = Finite 82\<rparr>"
  by (simp add: evaluate_prediction)

text \<open>
  Claim C8, amended. For a payload with a numeric current price whose dates and chosen prices are
  both non-empty, whatever their lengths, the normalization raises nothing and returns a record
  that carries both sequences exactly as they came: the lengths in the record are equal exactly
  when they are equal in the payload.
\<close>

theorem series_passed_unchanged:
  assumes "r_prediction_dates d = Some ds" and "ds \<noteq> []" and "choose_prices d \<noteq> []"
    and "r_current_price d = Some c"
  shows "normalize_primary symbol (Some d) = Inr (normalizedData symbol d (choose_prices d))
         \<and> normalize_simplified symbol (Some d) = Some (normalizedData symbol d (choose_prices d))
         \<and> prediction_dates (normalizedData symbol d (choose_prices d)) = ds
         \<and> prediction_prices (normalizedData symbol d (choose_prices d)) = choose_prices d"
  using assms
  by (auto simp: normalize_primary_def normalize_simplified_def normalizedData_def Let_def
      choose_prices_def split: option.splits)

theorem series_passed_unchanged_witness:
  "r_prediction_dates mismatched_payload = Some [''2024-01-02'', ''2024-01-03'', ''2024-01-04'']
   \<and> choose_prices mismatched_payload = [Finite 2510, Finite 2520]
   \<and> r_current_price mismatched_payload = Some (Finite 2500)
   \<and> normalize_simplified ''TCS'' (Some mismatched_payload)
     = Some (normalizedData ''TCS'' mismatched_payload [Finite 2510, Finite 2520])
   \<and> length (prediction_dates (normalizedData ''TCS'' mismatched_payload [Finite 2510, Finite 2520])) = 3
   \<and> length (prediction_prices (normalizedData ''TCS'' mismatched_payload [Finite 2510, Finite 2520])) = 2"
proof -
  have 1: "r_prediction_dates mismatched_payload = Some [''2024-01-02'', ''2024-01-03'', ''2024-01-04'']"
    and 2: "[''2024-01-02'', ''2024-01-03'', ''2024-01-04''] \<noteq> []"
    and 3: "choose_prices mismatched_payload \<noteq> []"
    and 4: "r_current_price mismatched_payload = Some (Finite 2500)"
    and 5: "choose_prices mismatched_payload = [Finite 2510, Finite 2520]"
    by (simp_all add: mismatched_payload_def example_payload_def choose_prices_def)
  from series_passed_unchanged [OF 1 2 3 4, of "''TCS''"] 1 4 5
  show ?thesis by simp
qed

subsection \<open>Retrying a prediction\<close>

text \<open>
  Claim C10, as stated: when the primary path times out, exactly one simplified request is
  attempted. The fallback is one more call of \<open>stockApi.predict\<close>, whose loop retries a
  simplified request like any other: when the first four requests time out, two simplified
  requests are made, and the answer to the second is displayed.
\<close>

theorem degraded_requests_counterexample:
  "fetchPrediction ''TCS'' flaky_network
     = ([Request False 15000, Wait 4000, Request False 15000, Wait 6000, Request False 15000,
         Request True 5000, Wait 4000, Request True 5000],
        Some (Prediction \<lparr>ticker = ''TCS'', current_price = Finite 2500,
            prediction_dates = [''2024-01-02'', ''2024-01-03''],
            prediction_prices = [Finite 2510, Finite 2520],
            confidence = Finite 82\<rparr>))"
  by (simp add: fetchPrediction_def predict_unfold attempt_def flaky_network_def Let_def
      normalize_simplified_def normalizedData_def convert_confidence_def
      choose_prices_def predictionData_def example_payload_def)

text \<open>
  Claim C10, amended. A call of \<open>stockApi.predict\<close> makes up to 3 attempts, pausing 4000 ms
  before the second and 6000 ms before the third (2000 ms times the number of the attempt to
  come). A fetch whose three primary attempts fail, the last not by a timeout, reports that
  failure after exactly these requests. When the last failure is a timeout, one simplified call
  follows, of up to 3 attempts again; if its first request is answered with a non-empty price
  series, that answer is displayed and no further request is made. In every other case no
  simplified request is made.
\<close>

theorem fetch_retry_policy:
  assumes "symbol \<noteq> []"
  shows "fst (predict symbol simplify net k) \<in> set (attempt_traces simplify)
    \<and> (failed (attempt symbol (net 0)) \<and> failed (attempt symbol (net 1))
         \<and> attempt symbol (net 2) = Inl e \<and> e \<noteq> Timeout \<longrightarrow>
       fetchPrediction symbol net
         = ([Request False 15000, Wait 4000, Request False 15000, Wait 6000, Request False 15000],
            Some (report e)))
    \<and> (failed (attempt symbol (net 0)) \<and> failed (attempt symbol (net 1))
         \<and> attempt symbol (net 2) = Inl Timeout \<longrightarrow>
       (\<exists>tr. tr \<in> set (attempt_traces True) \<and> fst (fetchPrediction symbol net)
         = [Request False 15000, Wait 4000, Request False 15000, Wait 6000, Request False 15000] @ tr))
    \<and> (failed (attempt symbol (net 0)) \<and> failed (attempt symbol (net 1))
         \<and> attempt symbol (net 2) = Inl Timeout
         \<and> net 3 = Body (Some d) \<and> choose_prices d \<noteq> [] \<longrightarrow>
       fetchPrediction symbol net
         = ([Request False 15000, Wait 4000, Request False 15000, Wait 6000, Request False 15000,
             Request True 5000],
            Some (Prediction (normalizedData symbol (predictionData symbol d) (choose_prices d)))))
    \<and> (\<not> (failed (attempt symbol (net 0)) \<and> failed (attempt symbol (net 1))
            \<and> attempt symbol (net 2) = Inl Timeout) \<longrightarrow>
       fst (fetchPrediction symbol net) \<in> set (attempt_traces False))"
proof (intro conjI impI)
  show "fst (predict symbol simplify net k) \<in> set (attempt_traces simplify)"
    by (rule predict_traces)
next
  assume a: "failed (attempt symbol (net 0)) \<and> failed (attempt symbol (net 1))
         \<and> attempt symbol (net 2) = Inl e \<and> e \<noteq> Timeout"
  then have "predict symbol False net 0
      = ([Request False 15000, Wait 4000, Request False 15000, Wait 6000, Request False 15000],
         Inl e, 3)"
    by (simp add: predict_exhausted numeral_2_eq_2 numeral_3_eq_3)
  with assms a show "fetchPrediction symbol net
         = ([Request False 15000, Wait 4000, Request False 15000, Wait 6000, Request False 15000],
            Some (report e))"
    by (simp add: fetchPrediction_def)
next
  assume a: "failed (attempt symbol (net 0)) \<and> failed (attempt symbol (net 1))
         \<and> attempt symbol (net 2) = Inl Timeout"
  then have p: "predict symbol False net 0
      = ([Request False 15000, Wait 4000, Request False 15000, Wait 6000, Request False 15000],
         Inl Timeout, 3)"
    by (simp add: predict_exhausted numeral_2_eq_2 numeral_3_eq_3)
  obtain tr res k' where q: "predict symbol True net 3 = (tr, res, k')"
    by (cases "predict symbol True net 3")
  from predict_traces [of symbol True net 3] q have "tr \<in> set (attempt_traces True)"
    by simp
  moreover from assms p q have "fst (fetchPrediction symbol net)
         = [Request False 15000, Wait 4000, Request False 15000, Wait 6000, Request False 15000] @ tr"
    by (simp add: fetchPrediction_def split: sum.splits option.splits)
  ultimately show "\<exists>tr. tr \<in> set (attempt_traces True) \<and> fst (fetchPrediction symbol net)
         = [Request False 15000, Wait 4000, Request False 15000, Wait 6000, Request False 15000] @ tr"
    by blast
next
  assume a: "failed (attempt symbol (net 0)) \<and> failed (attempt symbol (net 1))
         \<and> attempt symbol (net 2) = Inl Timeout
         \<and> net 3 = Body (Some d) \<and> choose_prices d \<noteq> []"
  then have p: "predict symbol False net 0
      = ([Request False 15000, Wait 4000, Request False 15000, Wait 6000, Request False 15000],
         Inl Timeout, 3)"
    by (simp add: predict_exhausted numeral_2_eq_2 numeral_3_eq_3)
  from a have "attempt symbol (net 3) = Inr (predictionData symbol d)"
    by (simp add: attempt_def)
  then have q: "predict symbol True net 3 = ([Request True 5000], Inr (predictionData symbol d), 4)"
    by (simp add: predict_first)
  from a have n: "normalize_simplified symbol (Some (predictionData symbol d))
      = Some (normalizedData symbol (predictionData symbol d) (choose_prices d))"
    by (simp add: normalize_simplified_def predictionData_def choose_prices_def)
  from assms p q n show "fetchPrediction symbol net
         = ([Request False 15000, Wait 4000, Request False 15000, Wait 6000, Request False 15000,
             Request True 5000],
            Some (Prediction (normalizedData symbol (predictionData symbol d) (choose_prices d))))"
    by (simp add: fetchPrediction_def)
next
  assume a: "\<not> (failed (attempt symbol (net 0)) \<and> failed (attempt symbol (net 1))
            \<and> attempt symbol (net 2) = Inl Timeout)"
  obtain tr res k' where p: "predict symbol False net 0 = (tr, res, k')"
    by (cases "predict symbol False net 0")
  from predict_traces [of symbol False net 0] p have t: "tr \<in> set (attempt_traces False)"
    by simp
  from a p have "res \<noteq> Inl Timeout"
    by (auto simp: predict_unfold failed_def Let_def numeral_2_eq_2 split: sum.splits)
  with assms p t show "fst (fetchPrediction symbol net) \<in> set (attempt_traces False)"
    by (simp add: fetchPrediction_def split: sum.splits)
qed

text \<open>Scenario E of the specification, with three timeouts of the primary request, is the witness.\<close>

theorem fetch_retry_policy_witness:
  "failed (attempt ''TCS'' (slow_network 0)) \<and> failed (attempt ''TCS'' (slow_network 1))
   \<and> attempt ''TCS'' (slow_network 2) = Inl Timeout
   \<and> slow_network 3 = Body (Some example_payload) \<and> choose_prices example_payload \<noteq> []
   \<and> fetchPrediction ''TCS'' slow_network
     = ([Request False 15000, Wait 4000, Request False 15000, Wait 6000, Request False 15000,
         Request True 5000],
        Some (Prediction \<lparr>ticker = ''TCS'', current_price = Finite 2500,
            prediction_dates = [''2024-01-02'', ''2024-01-03''],
            prediction_prices = [Finite 2510, Finite 2520],
            confidence = Finite 82\<rparr>))"
proof -
  have s: "''TCS'' \<noteq> []" by simp
  have h: "failed (attempt ''TCS'' (slow_network 0)) \<and> failed (attempt ''TCS'' (slow_network 1))
   \<and> attempt ''TCS'' (slow_network 2) = Inl Timeout
   \<and> slow_network 3 = Body (Some example_payload) \<and> choose_prices example_payload \<noteq> []"
    by (simp add: slow_network_def attempt_def failed_def choose_prices_def example_payload_def)
  from fetch_retry_policy [OF s, where net = slow_network and d = example_payload] h
  have "fetchPrediction ''TCS'' slow_network
         = ([Request False 15000, Wait 4000, Request False 15000, Wait 6000, Request False 15000,
             Request True 5000],
            Some (Prediction (normalizedData ''TCS'' (predictionData ''TCS'' example_payload)
               (choose_prices example_payload))))"
    by blast
  with h show ?thesis
    by (simp add: normalizedData_def predictionData_def choose_prices_def example_payload_def
        convert_confidence_def)
qed

end
